theory Spec2Isabelle
  imports Complex_Main
begin

section \<open>Python values, dictionaries and errors\<close>

text \<open>
  The retrieval core of the repository passes result items around as Python dictionaries
  \<^verbatim>\<open>dict[str, Any]\<close>. A dictionary is modelled as an association list in insertion
  order; the values an item can hold are strings, floats, nested dictionaries and
  \<^verbatim>\<open>None\<close>.

  The fusion is modelled twice. The first model computes the scores with exact
  rationals: rounding, overflow and the conversion of very large integers to floats are
  left out, and a statement about a score there is a statement about which terms the
  code adds up. The second model repeats the scoring pass in IEEE 754 double precision,
  for the properties that rounding and overflow decide.
\<close>

datatype pyval =
    PNone
  | PStr string
  | PFloat rat
  | PDict "(string \<times> pyval) list"

type_synonym ('k, 'v) dict = "('k \<times> 'v) list"

type_synonym item = "(string, pyval) dict"

text \<open>
  The exceptions the modelled code can raise. \<open>RuntimeError_not_loaded\<close> is
  \<^verbatim>\<open>RuntimeError("Retriever not loaded. Call load_from_manifest() first.")\<close>;
  \<open>ValueError_dimension_mismatch d m\<close> is
  \<^verbatim>\<open>ValueError(f"Dimension mismatch: index has {d}, manifest says {m}")\<close>;
  \<open>OverflowError\<close> is \<^verbatim>\<open>OverflowError("int too large to convert to float")\<close>;
  \<open>ExternalError\<close> stands for whatever S3, the file system, FAISS or the embedding
  provider raise.
\<close>

datatype error =
    ZeroDivisionError
  | TypeError
  | KeyError
  | RuntimeError_not_loaded
  | ValueError_dimension_mismatch int int
  | OverflowError
  | ExternalError string

text \<open>\<^verbatim>\<open>d.get(key, default)\<close>\<close>

definition dict_get :: "('k, 'v) dict \<Rightarrow> 'k \<Rightarrow> 'v \<Rightarrow> 'v" where
  "dict_get d key dflt = (case map_of d key of None \<Rightarrow> dflt | Some v \<Rightarrow> v)"

text \<open>
  \<^verbatim>\<open>d[key] = v\<close>: an existing key keeps its position, a new key goes to the end.
\<close>

fun dict_set :: "('k, 'v) dict \<Rightarrow> 'k \<Rightarrow> 'v \<Rightarrow> ('k, 'v) dict" where
  "dict_set [] key v = [(key, v)]"
| "dict_set ((k', v') # d) key v =
     (if k' = key then (key, v) # d else (k', v') # dict_set d key v)"

text \<open>A dictionary is unhashable; strings, floats and \<^verbatim>\<open>None\<close> are hashable.\<close>

fun hashable :: "pyval \<Rightarrow> bool" where
  "hashable (PDict _) = False"
| "hashable _ = True"


section \<open>Reciprocal rank fusion (\<^verbatim>\<open>utils/fusion.py\<close>)\<close>

type_synonym key = "pyval \<times> pyval"

text \<open>
  \<^verbatim>\<open>corpus = item.get("corpus", ""); chunk_id = item.get("chunk_id", "");
  key = (corpus, chunk_id)\<close>
\<close>

definition item_key :: "item \<Rightarrow> key" where
  "item_key item = (dict_get item ''corpus'' (PStr ''''), dict_get item ''chunk_id'' (PStr ''''))"

text \<open>A tuple is hashable when its components are.\<close>

definition key_hashable :: "key \<Rightarrow> bool" where
  "key_hashable key = (hashable (fst key) \<and> hashable (snd key))"

type_synonym score_map = "key \<rightharpoonup> rat"

text \<open>\<^verbatim>\<open>score_map.get(key, 0.0)\<close>\<close>

definition score_get :: "score_map \<Rightarrow> key \<Rightarrow> rat" where
  "score_get sm key = (case sm key of None \<Rightarrow> 0 | Some s \<Rightarrow> s)"

text \<open>
  The inner loop of the scoring pass, \<^verbatim>\<open>for rank, item in enumerate(rank_list, start=1)\<close>;
  the argument \<open>rank\<close> is the counter of \<^verbatim>\<open>enumerate\<close>. The right-hand side of
  \<^verbatim>\<open>score_map[key] = score_map.get(key, 0.0) + 1.0 / (k + rank)\<close> first hashes the key
  (a \<^verbatim>\<open>TypeError\<close> for an unhashable one), then divides (a \<^verbatim>\<open>ZeroDivisionError\<close> when
  \<open>k + rank = 0\<close>).
\<close>

fun score_list :: "int \<Rightarrow> nat \<Rightarrow> item list \<Rightarrow> score_map \<Rightarrow> error + score_map" where
  "score_list k rank [] sm = Inr sm"
| "score_list k rank (item # rest) sm =
     (let key = item_key item in
      if \<not> key_hashable key then Inl TypeError
      else if k + int rank = 0 then Inl ZeroDivisionError
      else score_list k (Suc rank) rest
             (sm(key \<mapsto> score_get sm key + 1 / of_int (k + int rank))))"

text \<open>The outer loop of the scoring pass, \<^verbatim>\<open>for rank_list in ranked_lists\<close>.\<close>

fun score_lists :: "int \<Rightarrow> item list list \<Rightarrow> score_map \<Rightarrow> error + score_map" where
  "score_lists k [] sm = Inr sm"
| "score_lists k (rank_list # rest) sm =
     (case score_list k 1 rank_list sm of
        Inl e \<Rightarrow> Inl e
      | Inr sm' \<Rightarrow> score_lists k rest sm')"

text \<open>
  The inner loop of the merging pass. The state is the pair of \<^verbatim>\<open>seen\<close> and
  \<^verbatim>\<open>fused_items\<close>; \<^verbatim>\<open>score_map[key]\<close> raises \<^verbatim>\<open>KeyError\<close> for a missing key.
\<close>

fun merge_list :: "score_map \<Rightarrow> item list \<Rightarrow> key set \<times> item list \<Rightarrow> error + key set \<times> item list" where
  "merge_list sm [] st = Inr st"
| "merge_list sm (item # rest) (seen, fused_items) =
     (let key = item_key item in
      if key \<notin> seen then
        (case sm key of
           None \<Rightarrow> Inl KeyError
         | Some s \<Rightarrow>
             merge_list sm rest
               (insert key seen, fused_items @ [dict_set item ''score'' (PFloat s)]))
      else merge_list sm rest (seen, fused_items))"

fun merge_lists :: "score_map \<Rightarrow> item list list \<Rightarrow> key set \<times> item list \<Rightarrow> error + key set \<times> item list" where
  "merge_lists sm [] st = Inr st"
| "merge_lists sm (rank_list # rest) st =
     (case merge_list sm rank_list st of
        Inl e \<Rightarrow> Inl e
      | Inr st' \<Rightarrow> merge_lists sm rest st')"

text \<open>
  The sort key \<^verbatim>\<open>lambda x: x.get("score", 0.0)\<close>. Every fused item carries a float
  under \<^verbatim>\<open>"score"\<close>, written by the merging pass, so the other cases of
  \<open>float_of\<close> are never compared.
\<close>

fun float_of :: "pyval \<Rightarrow> rat" where
  "float_of (PFloat r) = r"
| "float_of _ = 0"

definition score_key :: "item \<Rightarrow> rat" where
  "score_key x = float_of (dict_get x ''score'' (PFloat 0))"

text \<open>
  \<^verbatim>\<open>list.sort(key=f, reverse=True)\<close>: Python's sort is stable, also with
  \<^verbatim>\<open>reverse=True\<close> (elements with equal keys keep their original order). The model is
  the stable insertion sort into descending order: an element goes in front of the
  first element whose key is not larger than its own.
\<close>

fun insort_reverse :: "('a \<Rightarrow> 'b::linorder) \<Rightarrow> 'a \<Rightarrow> 'a list \<Rightarrow> 'a list" where
  "insort_reverse f x [] = [x]"
| "insort_reverse f x (y # ys) =
     (if f y \<le> f x then x # y # ys else y # insort_reverse f x ys)"

definition sort_reverse :: "('a \<Rightarrow> 'b::linorder) \<Rightarrow> 'a list \<Rightarrow> 'a list" where
  "sort_reverse f xs = foldr (insort_reverse f) xs []"

definition reciprocal_rank_fusion :: "item list list \<Rightarrow> int \<Rightarrow> error + item list" where
  "reciprocal_rank_fusion ranked_lists k =
     (if ranked_lists = [] then Inr []
      else
        case score_lists k ranked_lists Map.empty of
          Inl e \<Rightarrow> Inl e
        | Inr sm \<Rightarrow>
            (case merge_lists sm ranked_lists ({}, []) of
               Inl e \<Rightarrow> Inl e
             | Inr (seen, fused_items) \<Rightarrow> Inr (sort_reverse score_key fused_items)))"


subsection \<open>What the specification says about the fusion\<close>

text \<open>
  The sum of \<open>1 / (k + rank)\<close> over every position of a ranked list that holds an item
  with the given key, the positions counted from \<open>rank\<close>.
\<close>

fun occ_sum :: "int \<Rightarrow> nat \<Rightarrow> key \<Rightarrow> item list \<Rightarrow> rat" where
  "occ_sum k rank key [] = 0"
| "occ_sum k rank key (item # rest) =
     (if item_key item = key then 1 / of_int (k + int rank) else 0)
       + occ_sum k (Suc rank) key rest"

definition occurrence_score :: "int \<Rightarrow> item list list \<Rightarrow> key \<Rightarrow> rat" where
  "occurrence_score k ranked_lists key = sum_list (map (occ_sum k 1 key) ranked_lists)"






text \<open>
  The items of a list whose key is not in \<open>seen\<close> and has not occurred earlier in the
  list, in the order of the list; and the 0-based position of the first item with a key.
\<close>

fun first_occurrences :: "key set \<Rightarrow> item list \<Rightarrow> item list" where
  "first_occurrences seen [] = []"
| "first_occurrences seen (item # rest) =
     (if item_key item \<in> seen then first_occurrences seen rest
      else item # first_occurrences (insert (item_key item) seen) rest)"

definition first_index :: "key \<Rightarrow> item list \<Rightarrow> nat" where
  "first_index key xs = length (takeWhile (\<lambda>i. item_key i \<noteq> key) xs)"

definition with_score :: "score_map \<Rightarrow> item \<Rightarrow> item" where
  "with_score sm item = dict_set item ''score'' (PFloat (score_get sm (item_key item)))"

definition fused_item :: "int \<Rightarrow> item list list \<Rightarrow> item \<Rightarrow> item" where
  "fused_item k ranked_lists item =
     dict_set item ''score'' (PFloat (occurrence_score k ranked_lists (item_key item)))"


section \<open>The scoring pass in double precision\<close>

text \<open>
  The scores of \<^verbatim>\<open>fusion.py\<close> are Python floats, IEEE 754 binary64. The functions of the
  section above compute with the exact rationals; the functions of this section repeat
  the scoring pass with every operation rounded as the machine rounds it, for the
  properties that rounding and overflow decide. A finite double is the rational it denotes.

  \<open>ilog2 n\<close> is the position of the leading bit of a positive integer, and \<open>binade x\<close>
  the exponent \<open>e\<close> with \<open>2\<^sup>e \<le> x < 2\<^sup>e\<^sup>+\<^sup>1\<close> of a positive rational.
\<close>

function ilog2 :: "int \<Rightarrow> int" where
  "ilog2 n = (if n < 2 then 0 else ilog2 (n div 2) + 1)"
  by pat_completeness auto
termination
  by (relation "measure nat") auto

declare ilog2.simps [simp del]

definition binade :: "rat \<Rightarrow> int" where
  "binade x =
     (let (p, q) = quotient_of x;
          e = ilog2 p - ilog2 q
      in if 2 powi e \<le> x then e else e - 1)"

text \<open>Rounding to the nearest integer, a tie to the even one.\<close>

definition round_half_even :: "rat \<Rightarrow> int" where
  "round_half_even y =
     (let f = \<lfloor>y\<rfloor>; d = y - of_int f
      in if d < 1 / 2 then f else if 1 / 2 < d then f + 1 else if even f then f else f + 1)"

text \<open>
  The doubles around a positive \<open>x\<close> are the multiples of \<open>2\<close> to the power
  \<open>ulp_exponent x\<close>: 53 significant bits, and the fixed spacing \<open>2\<^sup>-\<^sup>1\<^sup>0\<^sup>7\<^sup>4\<close> of the
  subnormal range below \<open>2\<^sup>-\<^sup>1\<^sup>0\<^sup>2\<^sup>2\<close>. \<open>round_double\<close> is round-to-nearest, ties to
  even, without an upper bound on the exponent.
\<close>

definition ulp_exponent :: "rat \<Rightarrow> int" where
  "ulp_exponent x = max (binade x - 52) (- 1074)"

definition round_pos :: "rat \<Rightarrow> rat" where
  "round_pos x = of_int (round_half_even (x / 2 powi ulp_exponent x)) * 2 powi ulp_exponent x"

definition round_double :: "rat \<Rightarrow> rat" where
  "round_double x = (if x = 0 then 0 else if 0 < x then round_pos x else - round_pos (- x))"

text \<open>
  The conversion of a Python \<^verbatim>\<open>int\<close> to a float, as \<^verbatim>\<open>1.0 / (k + rank)\<close> does it to
  its right operand: correctly rounded, and \<^verbatim>\<open>OverflowError\<close> when the rounded value
  is beyond the largest double.
\<close>

definition float_of_int :: "int \<Rightarrow> error + rat" where
  "float_of_int n =
     (let v = round_double (of_int n) in if 2 ^ 1024 \<le> \<bar>v\<bar> then Inl OverflowError else Inr v)"

text \<open>
  Float division and addition. The quotients of the scoring pass are at most 1 in
  magnitude (the divisor is the float of a nonzero integer) and a list holds fewer than
  \<open>2\<^sup>6\<^sup>3\<close> items, so neither operation reaches the overflow threshold there, and
  infinities are not modelled.
\<close>

definition float_truediv :: "rat \<Rightarrow> rat \<Rightarrow> error + rat" where
  "float_truediv a b = (if b = 0 then Inl ZeroDivisionError else Inr (round_double (a / b)))"

definition float_add :: "rat \<Rightarrow> rat \<Rightarrow> rat" where
  "float_add a b = round_double (a + b)"

text \<open>
  The scoring pass of \<open>reciprocal_rank_fusion\<close> with
  \<^verbatim>\<open>score_map[key] = score_map.get(key, 0.0) + 1.0 / (k + rank)\<close> in double precision: the
  key is hashed, the integer \<open>k + rank\<close> is converted, the division and the addition
  are rounded. The merging pass and the sort are those of the section above.
\<close>

fun score_list_float :: "int \<Rightarrow> nat \<Rightarrow> item list \<Rightarrow> score_map \<Rightarrow> error + score_map" where
  "score_list_float k rank [] sm = Inr sm"
| "score_list_float k rank (item # rest) sm =
     (let key = item_key item in
      if \<not> key_hashable key then Inl TypeError
      else
        case float_of_int (k + int rank) of
          Inl e \<Rightarrow> Inl e
        | Inr x \<Rightarrow>
            (case float_truediv 1 x of
               Inl e \<Rightarrow> Inl e
             | Inr c \<Rightarrow>
                 score_list_float k (Suc rank) rest
                   (sm(key \<mapsto> float_add (score_get sm key) c))))"

fun score_lists_float :: "int \<Rightarrow> item list list \<Rightarrow> score_map \<Rightarrow> error + score_map" where
  "score_lists_float k [] sm = Inr sm"
| "score_lists_float k (rank_list # rest) sm =
     (case score_list_float k 1 rank_list sm of
        Inl e \<Rightarrow> Inl e
      | Inr sm' \<Rightarrow> score_lists_float k rest sm')"

definition reciprocal_rank_fusion_float :: "item list list \<Rightarrow> int \<Rightarrow> error + item list" where
  "reciprocal_rank_fusion_float ranked_lists k =
     (if ranked_lists = [] then Inr []
      else
        case score_lists_float k ranked_lists Map.empty of
          Inl e \<Rightarrow> Inl e
        | Inr sm \<Rightarrow>
            (case merge_lists sm ranked_lists ({}, []) of
               Inl e \<Rightarrow> Inl e
             | Inr (seen, fused_items) \<Rightarrow> Inr (sort_reverse score_key fused_items)))"

text \<open>
  The float that rank \<open>rank\<close> contributes when nothing is raised, and the score of a key
  after a ranked list, from its score before: the contributions of the positions that
  hold the key, added from left to right.
\<close>

definition float_contribution :: "int \<Rightarrow> nat \<Rightarrow> rat" where
  "float_contribution k rank = round_double (1 / round_double (of_int (k + int rank)))"




section \<open>The retriever facade (\<^verbatim>\<open>retrieval/faiss_s3.py\<close>)\<close>

subsection \<open>Data\<close>

text \<open>
  The manifest: \<^verbatim>\<open>{version, corpora: {name: {prefix, files, dimension, count}}}\<close>. The
  dictionary of corpora is iterated in insertion order.
\<close>

record corpus_entry =
  entry_prefix :: string
  entry_files :: "string list"
  dimension :: int
  entry_count :: int

record Manifest =
  version :: string
  corpora :: "(string, corpus_entry) dict"

text \<open>
  A FAISS index is used as a black box: it has a dimension \<^verbatim>\<open>d\<close>, and
  \<^verbatim>\<open>index.search(query_vector, top_k)\<close> returns distances and ordinal ids, here the list
  of pairs that \<^verbatim>\<open>zip(distances[0], ann_ids[0])\<close> runs over (or it raises).
\<close>

type_synonym vector = "rat list"

type_synonym hits = "(rat \<times> int) list"

record faiss_index =
  index_d :: int
  index_search :: "vector \<Rightarrow> int \<Rightarrow> error + hits"

text \<open>
  The lines of \<^verbatim>\<open>ids.jsonl\<close> (\<^verbatim>\<open>{ann_id, id}\<close>) and of \<^verbatim>\<open>docs.jsonl\<close>
  (\<^verbatim>\<open>{id, text, metadata}\<close>) as \<^verbatim>\<open>jsonl_iter\<close> yields them; a field is \<open>None\<close> when
  the line does not have it. Ordinal ids are integers and chunk ids are strings, as the
  indexers write them.
\<close>

record id_line =
  line_ann_id :: "int option"
  line_id :: "string option"

record doc_line =
  doc_id :: "string option"
  doc_text :: "pyval option"
  doc_metadata :: "pyval option"

text \<open>
  What the outside world holds for one corpus: whether downloading its files raises, what
  \<^verbatim>\<open>faiss.read_index\<close> returns, and what \<^verbatim>\<open>jsonl_iter\<close> yields for the two map files
  (malformed lines are already skipped there; opening the file can raise).
\<close>

record corpus_store =
  download_error :: "error option"
  read_index :: "error + faiss_index"
  ids_jsonl :: "error + id_line list"
  docs_jsonl :: "error + doc_line list"

text \<open>
  The collaborators of the facade: fetching and validating the manifest at a bucket and
  key, the storage of each corpus of a bucket, and the embedding provider.
\<close>

record env =
  get_manifest :: "string \<Rightarrow> string \<Rightarrow> error + Manifest"
  store :: "string \<Rightarrow> string \<Rightarrow> corpus_store"
  embed_query :: "string \<Rightarrow> error + vector"

record Config =
  fusion_k :: int

text \<open>The attributes of \<^verbatim>\<open>FaissS3Retriever\<close>.\<close>

record retriever =
  config :: Config
  manifest :: "Manifest option"
  indices :: "(string, faiss_index) dict"
  id_maps :: "(string, (int, string) dict) dict"
  doc_maps :: "(string, (string, item) dict) dict"
  loaded :: bool
  corpus_counts :: "(string, int) dict"

text \<open>\<^verbatim>\<open>__init__\<close>\<close>

definition retriever_init :: "Config \<Rightarrow> retriever" where
  "retriever_init cfg =
     \<lparr>config = cfg, manifest = None, indices = [], id_maps = [], doc_maps = [],
      loaded = False, corpus_counts = []\<rparr>"

subsection \<open>Loading\<close>

text \<open>
  \<^verbatim>\<open>if ann_id is not None and chunk_id: id_map[int(ann_id)] = str(chunk_id)\<close>; an empty
  chunk id is falsy.
\<close>

fun load_id_map :: "id_line list \<Rightarrow> (int, string) dict \<Rightarrow> (int, string) dict" where
  "load_id_map [] id_map = id_map"
| "load_id_map (item # rest) id_map =
     (case (line_ann_id item, line_id item) of
        (Some ann_id, Some chunk_id) \<Rightarrow>
          if chunk_id \<noteq> [] then load_id_map rest (dict_set id_map ann_id chunk_id)
          else load_id_map rest id_map
      | _ \<Rightarrow> load_id_map rest id_map)"

text \<open>
  \<^verbatim>\<open>if chunk_id: doc_map[str(chunk_id)] =
  {"text": item.get("text", ""), "metadata": item.get("metadata", {})}\<close>
\<close>

fun load_doc_map :: "doc_line list \<Rightarrow> (string, item) dict \<Rightarrow> (string, item) dict" where
  "load_doc_map [] doc_map = doc_map"
| "load_doc_map (item # rest) doc_map =
     (case doc_id item of
        Some chunk_id \<Rightarrow>
          if chunk_id \<noteq> [] then
            load_doc_map rest
              (dict_set doc_map chunk_id
                 [(''text'', case doc_text item of None \<Rightarrow> PStr '''' | Some t \<Rightarrow> t),
                  (''metadata'', case doc_metadata item of None \<Rightarrow> PDict [] | Some m \<Rightarrow> m)])
          else load_doc_map rest doc_map
      | None \<Rightarrow> load_doc_map rest doc_map)"

text \<open>
  \<^verbatim>\<open>_load_corpus\<close>. An exception leaves the attributes as they are at that point, so the
  result is the state together with the exception raised, if any. The dimension check
  comes before the index is stored.
\<close>

definition load_corpus ::
  "env \<Rightarrow> string \<Rightarrow> string \<Rightarrow> corpus_entry \<Rightarrow> retriever \<Rightarrow> retriever \<times> error option" where
  "load_corpus e bucket corpus_name entry s =
     (let st = store e bucket corpus_name in
      case download_error st of
        Some err \<Rightarrow> (s, Some err)
      | None \<Rightarrow>
     (case read_index st of
        Inl err \<Rightarrow> (s, Some err)
      | Inr index \<Rightarrow>
     if index_d index \<noteq> dimension entry
     then (s, Some (ValueError_dimension_mismatch (index_d index) (dimension entry)))
     else
       let s1 = s\<lparr>indices := dict_set (indices s) corpus_name index\<rparr> in
       (case ids_jsonl st of
          Inl err \<Rightarrow> (s1, Some err)
        | Inr id_lines \<Rightarrow>
       let s2 = s1\<lparr>id_maps := dict_set (id_maps s1) corpus_name (load_id_map id_lines [])\<rparr> in
       (case docs_jsonl st of
          Inl err \<Rightarrow> (s2, Some err)
        | Inr doc_lines \<Rightarrow>
       let s3 = s2\<lparr>doc_maps := dict_set (doc_maps s2) corpus_name (load_doc_map doc_lines [])\<rparr>
       in (s3\<lparr>corpus_counts := dict_set (corpus_counts s3) corpus_name (entry_count entry)\<rparr>,
           None)))))"

text \<open>\<^verbatim>\<open>for corpus_name, corpus_entry in self.manifest.corpora.items()\<close>\<close>

fun load_corpora ::
  "env \<Rightarrow> string \<Rightarrow> (string \<times> corpus_entry) list \<Rightarrow> retriever \<Rightarrow> retriever \<times> error option" where
  "load_corpora e bucket [] s = (s, None)"
| "load_corpora e bucket ((corpus_name, entry) # rest) s =
     (case load_corpus e bucket corpus_name entry s of
        (s', Some err) \<Rightarrow> (s', Some err)
      | (s', None) \<Rightarrow> load_corpora e bucket rest s')"

text \<open>
  \<^verbatim>\<open>load_from_manifest\<close>: the manifest is stored once it is fetched and validated, the
  corpora are loaded in turn, and \<^verbatim>\<open>self.loaded = True\<close> comes last.
\<close>

definition load_from_manifest ::
  "env \<Rightarrow> retriever \<Rightarrow> string \<Rightarrow> string \<Rightarrow> retriever \<times> error option" where
  "load_from_manifest e s bucket manifest_key =
     (case get_manifest e bucket manifest_key of
        Inl err \<Rightarrow> (s, Some err)
      | Inr m \<Rightarrow>
          (case load_corpora e bucket (corpora m) (s\<lparr>manifest := Some m\<rparr>) of
             (s', Some err) \<Rightarrow> (s', Some err)
           | (s', None) \<Rightarrow> (s'\<lparr>loaded := True\<rparr>, None)))"

subsection \<open>Searching\<close>

text \<open>The warning \<^verbatim>\<open>logger.warning("missing_chunk_id", corpus=..., ann_id=...)\<close>.\<close>

datatype warning = Missing_chunk_id string int

text \<open>
  The loop over \<^verbatim>\<open>zip(distances[0], ann_ids[0])\<close> that builds the results of one corpus,
  with the warnings it logs. \<^verbatim>\<open>if not chunk_id\<close> holds for a missing entry of the id map
  and for an empty chunk id.
\<close>

fun corpus_results ::
  "string \<Rightarrow> (int, string) dict \<Rightarrow> (string, item) dict \<Rightarrow> hits \<Rightarrow> item list \<times> warning list" where
  "corpus_results corpus_name id_map doc_map [] = ([], [])"
| "corpus_results corpus_name id_map doc_map ((distance, ann_id) # rest) =
     (let (results, warnings) = corpus_results corpus_name id_map doc_map rest in
      if ann_id = - 1 then (results, warnings)
      else
        case map_of id_map ann_id of
          None \<Rightarrow> (results, Missing_chunk_id corpus_name ann_id # warnings)
        | Some chunk_id \<Rightarrow>
            if chunk_id = [] then (results, Missing_chunk_id corpus_name ann_id # warnings)
            else
              let doc_data = dict_get doc_map chunk_id [];
                  text = dict_get doc_data ''text'' (PStr '''');
                  metadata = dict_get doc_data ''metadata'' (PDict [])
              in ([(''corpus'', PStr corpus_name),
                   (''chunk_id'', PStr chunk_id),
                   (''score'', PFloat distance),
                   (''text'', text),
                   (''metadata'', metadata)] # results,
                  warnings))"

text \<open>
  \<^verbatim>\<open>for corpus_name, index in self.indices.items()\<close>: the ranked lists of the corpora in
  the order of the dictionary. \<^verbatim>\<open>self.id_maps[corpus_name]\<close> and
  \<^verbatim>\<open>self.doc_maps[corpus_name]\<close> raise \<^verbatim>\<open>KeyError\<close> for a missing corpus.
\<close>

fun search_corpora ::
  "retriever \<Rightarrow> vector \<Rightarrow> int \<Rightarrow> (string \<times> faiss_index) list
     \<Rightarrow> (error + item list list) \<times> warning list" where
  "search_corpora s query_vector top_k [] = (Inr [], [])"
| "search_corpora s query_vector top_k ((corpus_name, index) # rest) =
     (case index_search index query_vector top_k of
        Inl err \<Rightarrow> (Inl err, [])
      | Inr found \<Rightarrow>
     (case map_of (id_maps s) corpus_name of
        None \<Rightarrow> (Inl KeyError, [])
      | Some id_map \<Rightarrow>
     (case map_of (doc_maps s) corpus_name of
        None \<Rightarrow> (Inl KeyError, [])
      | Some doc_map \<Rightarrow>
          let (corpus_res, warnings) = corpus_results corpus_name id_map doc_map found in
          (case search_corpora s query_vector top_k rest of
             (Inl err, warnings') \<Rightarrow> (Inl err, warnings @ warnings')
           | (Inr ranked_lists, warnings') \<Rightarrow>
               (Inr (corpus_res # ranked_lists), warnings @ warnings')))))"

text \<open>\<^verbatim>\<open>search\<close>: the result or the exception, and the warnings logged.\<close>

definition search ::
  "env \<Rightarrow> retriever \<Rightarrow> string \<Rightarrow> int \<Rightarrow> (error + item list) \<times> warning list" where
  "search e s query top_k =
     (if \<not> loaded s then (Inl RuntimeError_not_loaded, [])
      else
        case embed_query e query of
          Inl err \<Rightarrow> (Inl err, [])
        | Inr query_vector \<Rightarrow>
            (case search_corpora s query_vector top_k (indices s) of
               (Inl err, warnings) \<Rightarrow> (Inl err, warnings)
             | (Inr ranked_lists, warnings) \<Rightarrow>
                 (reciprocal_rank_fusion ranked_lists (fusion_k (config s)), warnings)))"


text \<open>
  A corpus of the facade can be searched: its index answers the query, and the facade
  holds an id map and a document map for it.
\<close>

definition corpus_ready :: "retriever \<Rightarrow> vector \<Rightarrow> int \<Rightarrow> string \<times> faiss_index \<Rightarrow> bool" where
  "corpus_ready s query_vector top_k c =
     ((case index_search (snd c) query_vector top_k of Inl err \<Rightarrow> False | Inr found \<Rightarrow> True)
      \<and> map_of (id_maps s) (fst c) \<noteq> None \<and> map_of (doc_maps s) (fst c) \<noteq> None)"





section \<open>Example inputs\<close>

definition ex_item :: "string \<Rightarrow> string \<Rightarrow> string \<Rightarrow> item" where
  "ex_item corpus chunk_id text =
     [(''corpus'', PStr corpus), (''chunk_id'', PStr chunk_id), (''text'', PStr text)]"

text \<open>An item without \<^verbatim>\<open>"corpus"\<close> and \<^verbatim>\<open>"chunk_id"\<close>.\<close>

definition ex_bare :: "string \<Rightarrow> item" where
  "ex_bare text = [(''text'', PStr text)]"

text \<open>
  A manifest of one corpus whose index answers every query with the ordinal id 0 and
  one empty slot, and the facade loaded from it; a manifest whose second corpus has an
  index of dimension 768 where the manifest says 1536, and the facade after the failed
  load; and a later manifest that lists the second corpus only.
\<close>

definition ex_config :: Config where
  "ex_config = \<lparr>fusion_k = 8\<rparr>"

definition ex_index :: "int \<Rightarrow> hits \<Rightarrow> faiss_index" where
  "ex_index width found = \<lparr>index_d = width, index_search = (\<lambda>query_vector top_k. Inr found)\<rparr>"

definition ex_entry :: "string \<Rightarrow> int \<Rightarrow> corpus_entry" where
  "ex_entry name width =
     \<lparr>entry_prefix = ''rag/'' @ name @ ''/'',
      entry_files = [''index.faiss'', ''ids.jsonl'', ''docs.jsonl''],
      dimension = width, entry_count = 1\<rparr>"

definition ex_store :: "int \<Rightarrow> string \<Rightarrow> corpus_store" where
  "ex_store width chunk =
     \<lparr>download_error = None,
      read_index = Inr (ex_index width [(9 / 10, 0), (0, - 1)]),
      ids_jsonl = Inr [\<lparr>line_ann_id = Some 0, line_id = Some chunk\<rparr>],
      docs_jsonl = Inr [\<lparr>doc_id = Some chunk, doc_text = Some (PStr ''hello''), doc_metadata = None\<rparr>]\<rparr>"

definition ex_env :: env where
  "ex_env =
     \<lparr>get_manifest = (\<lambda>bucket manifest_key.
        Inr \<lparr>version = ''v1'', corpora = [(''pdf'', ex_entry ''pdf'' 1536)]\<rparr>),
      store = (\<lambda>bucket corpus_name. ex_store 1536 ''c1''),
      embed_query = (\<lambda>query. Inr [1])\<rparr>"

definition ex_env_mismatch :: env where
  "ex_env_mismatch =
     \<lparr>get_manifest = (\<lambda>bucket manifest_key.
        Inr \<lparr>version = ''v1'',
             corpora = [(''pdf'', ex_entry ''pdf'' 1536), (''sas'', ex_entry ''sas'' 1536)]\<rparr>),
      store = (\<lambda>bucket corpus_name.
        if corpus_name = ''sas'' then ex_store 768 ''s1'' else ex_store 1536 ''c1''),
      embed_query = (\<lambda>query. Inr [1])\<rparr>"

definition ex_env_sas :: env where
  "ex_env_sas =
     \<lparr>get_manifest = (\<lambda>bucket manifest_key.
        Inr \<lparr>version = ''v2'', corpora = [(''sas'', ex_entry ''sas'' 768)]\<rparr>),
      store = (\<lambda>bucket corpus_name. ex_store 768 ''s1''),
      embed_query = (\<lambda>query. Inr [1])\<rparr>"

definition ex_loaded :: retriever where
  "ex_loaded = fst (load_from_manifest ex_env (retriever_init ex_config) ''bucket'' ''rag/manifest.json'')"

definition ex_failed :: retriever where
  "ex_failed =
     fst (load_from_manifest ex_env_mismatch (retriever_init ex_config) ''bucket'' ''rag/manifest.json'')"

definition ex_reloaded :: retriever where
  "ex_reloaded = fst (load_from_manifest ex_env_sas ex_failed ''bucket'' ''rag/manifest.json'')"

text \<open>
  The loaded facade with an index that also answers with the ordinal id 7, which the id
  map does not have, and with an empty document map.
\<close>

definition ex_unmapped :: retriever where
  "ex_unmapped =
     ex_loaded\<lparr>indices := [(''pdf'', ex_index 1536 [(9 / 10, 0), (8 / 10, 7), (0, - 1)])],
               doc_maps := [(''pdf'', [])]\<rparr>"






text \<open>An item with a corpus and no chunk id, and one with a chunk id and no corpus.\<close>

definition ex_corpus_only :: item where
  "ex_corpus_only = [(''corpus'', PStr ''pdf''), (''text'', PStr ''no chunk id'')]"

definition ex_chunk_only :: item where
  "ex_chunk_only = [(''chunk_id'', PStr ''c1''), (''text'', PStr ''no corpus'')]"


section \<open>Properties of the fusion\<close>

lemma score_lists_all_empty:
  "\<forall>l\<in>set ls. l = [] \<Longrightarrow> score_lists k ls sm = Inr sm"
  by (induction ls) auto

lemma merge_lists_all_empty:
  "\<forall>l\<in>set ls. l = [] \<Longrightarrow> merge_lists sm ls st = Inr st"
  by (induction ls) auto

lemma sort_reverse_Nil: "sort_reverse f [] = []"
  by (simp add: sort_reverse_def)

lemma score_lists_append:
  "score_lists k (as @ bs) sm =
     (case score_lists k as sm of Inl e \<Rightarrow> Inl e | Inr sm' \<Rightarrow> score_lists k bs sm')"
  by (induction as arbitrary: sm) (auto split: sum.splits)

lemma merge_lists_append:
  "merge_lists sm (as @ bs) st =
     (case merge_lists sm as st of Inl e \<Rightarrow> Inl e | Inr st' \<Rightarrow> merge_lists sm bs st')"
  by (induction as arbitrary: st) (auto split: sum.splits)

lemma score_lists_drop_empty:
  "score_lists k (as @ [] # bs) sm = score_lists k (as @ bs) sm"
  by (simp add: score_lists_append split: sum.splits)

lemma merge_lists_drop_empty:
  "merge_lists sm (as @ [] # bs) st = merge_lists sm (as @ bs) st"
  by (simp add: merge_lists_append split: sum.splits)

lemma fusion_all_empty:
  "\<forall>l\<in>set ls. l = [] \<Longrightarrow> reciprocal_rank_fusion ls k = Inr []"
  by (simp add: reciprocal_rank_fusion_def score_lists_all_empty merge_lists_all_empty
      sort_reverse_Nil)

lemma fusion_drop_empty:
  "reciprocal_rank_fusion (as @ [] # bs) k = reciprocal_rank_fusion (as @ bs) k"
proof (cases "as @ bs = []")
  case True
  then show ?thesis
    by (simp add: fusion_all_empty)
next
  case False
  then show ?thesis
    unfolding reciprocal_rank_fusion_def score_lists_drop_empty merge_lists_drop_empty
    by (simp add: sort_reverse_Nil)
qed

text \<open>
  Claim C9. Fusing the empty sequence of ranked lists gives the empty list; fusing a
  sequence whose ranked lists are all empty (for instance the single empty list) gives
  the empty list; and an empty ranked list contributes nothing: the scoring pass leaves
  the score map as it was on an empty list, and removing an empty list from anywhere in
  the input leaves the result of the fusion unchanged.
\<close>

theorem fusion_empty_inputs:
  "reciprocal_rank_fusion [] k = Inr []
   \<and> reciprocal_rank_fusion [[]] k = Inr []
   \<and> ((\<forall>l\<in>set ls. l = []) \<longrightarrow> reciprocal_rank_fusion ls k = Inr [])
   \<and> score_list k 1 [] sm = Inr sm
   \<and> reciprocal_rank_fusion (as @ [] # bs) k = reciprocal_rank_fusion (as @ bs) k"
  using fusion_all_empty [of "[]" k] fusion_all_empty [of "[[]]" k] fusion_all_empty [of ls k]
    fusion_drop_empty [of as bs k]
  by simp

theorem fusion_empty_inputs_witness:
  "reciprocal_rank_fusion [[], [], []] 60 = Inr []
   \<and> reciprocal_rank_fusion ([[[(''corpus'', PStr ''pdf''), (''chunk_id'', PStr ''c1'')]]] @ [] # []) 60
       = reciprocal_rank_fusion ([[[(''corpus'', PStr ''pdf''), (''chunk_id'', PStr ''c1'')]]] @ []) 60"
  using fusion_empty_inputs [of 60 "[[], [], []]" Map.empty
      "[[[(''corpus'', PStr ''pdf''), (''chunk_id'', PStr ''c1'')]]]" "[]"]
  by simp

lemma map_of_dict_set: "map_of (dict_set d key v) = (map_of d)(key \<mapsto> v)"
  by (induction d key v rule: dict_set.induct) auto

lemma dict_get_dict_set:
  "dict_get (dict_set d key v) key' dflt = (if key' = key then v else dict_get d key' dflt)"
  by (simp add: dict_get_def map_of_dict_set)

lemma item_key_dict_set_score [simp]: "item_key (dict_set item ''score'' v) = item_key item"
  by (simp add: item_key_def dict_get_dict_set)

lemma score_key_dict_set_score [simp]: "score_key (dict_set item ''score'' (PFloat s)) = s"
  by (simp add: score_key_def dict_get_dict_set)

lemma score_list_get:
  "score_list k rank l sm = Inr sm' \<Longrightarrow>
     score_get sm' key = score_get sm key + occ_sum k rank key l"
proof (induction l arbitrary: rank sm)
  case Nil
  then show ?case by simp
next
  case (Cons item rest)
  from Cons.prems have
    step: "score_list k (Suc rank) rest
       (sm(item_key item \<mapsto> score_get sm (item_key item) + 1 / of_int (k + int rank))) = Inr sm'"
    by (simp add: Let_def split: if_splits)
  show ?case
    using Cons.IH [OF step] by (simp add: score_get_def)
qed

lemma score_list_dom:
  "score_list k rank l sm = Inr sm' \<Longrightarrow> dom sm' = dom sm \<union> item_key ` set l"
proof (induction l arbitrary: rank sm)
  case Nil
  then show ?case by simp
next
  case (Cons item rest)
  from Cons.prems have
    step: "score_list k (Suc rank) rest
       (sm(item_key item \<mapsto> score_get sm (item_key item) + 1 / of_int (k + int rank))) = Inr sm'"
    by (simp add: Let_def split: if_splits)
  show ?case
    using Cons.IH [OF step] by auto
qed

lemma score_lists_get:
  "score_lists k ls sm = Inr sm' \<Longrightarrow>
     score_get sm' key = score_get sm key + occurrence_score k ls key"
proof (induction ls arbitrary: sm)
  case Nil
  then show ?case by (simp add: occurrence_score_def)
next
  case (Cons l ls)
  from Cons.prems obtain sm1 where a: "score_list k 1 l sm = Inr sm1"
    and b: "score_lists k ls sm1 = Inr sm'"
    by (auto split: sum.splits)
  show ?case
    using Cons.IH [OF b] score_list_get [OF a, of key]
    by (simp add: occurrence_score_def)
qed

lemma score_lists_dom:
  "score_lists k ls sm = Inr sm' \<Longrightarrow> dom sm' = dom sm \<union> item_key ` set (concat ls)"
proof (induction ls arbitrary: sm)
  case Nil
  then show ?case by simp
next
  case (Cons l ls)
  from Cons.prems obtain sm1 where a: "score_list k 1 l sm = Inr sm1"
    and b: "score_lists k ls sm1 = Inr sm'"
    by (auto split: sum.splits)
  show ?case
    using Cons.IH [OF b] score_list_dom [OF a]
    by auto
qed

lemma merge_list_eq:
  "item_key ` set l \<subseteq> dom sm \<Longrightarrow>
   merge_list sm l (seen, fused) =
     Inr (seen \<union> item_key ` set l, fused @ map (with_score sm) (first_occurrences seen l))"
proof (induction l arbitrary: seen fused)
  case Nil
  then show ?case by simp
next
  case (Cons item rest)
  from Cons.prems obtain s where s: "sm (item_key item) = Some s" by auto
  from Cons.prems have sub: "item_key ` set rest \<subseteq> dom sm" by simp
  show ?case
  proof (cases "item_key item \<in> seen")
    case True
    then show ?thesis
      using Cons.IH [OF sub, of seen fused] by (auto simp: Let_def)
  next
    case False
    then show ?thesis
      using Cons.IH [OF sub, of "insert (item_key item) seen"
          "fused @ [dict_set item ''score'' (PFloat s)]"] s
      by (simp add: Let_def with_score_def score_get_def)
  qed
qed

lemma first_occurrences_append:
  "first_occurrences seen (xs @ ys) =
     first_occurrences seen xs @ first_occurrences (seen \<union> item_key ` set xs) ys"
  by (induction xs arbitrary: seen) (auto simp: insert_absorb)

lemma merge_lists_eq:
  "item_key ` set (concat ls) \<subseteq> dom sm \<Longrightarrow>
   merge_lists sm ls (seen, fused) =
     Inr (seen \<union> item_key ` set (concat ls),
          fused @ map (with_score sm) (first_occurrences seen (concat ls)))"
proof (induction ls arbitrary: seen fused)
  case Nil
  then show ?case by simp
next
  case (Cons l ls)
  from Cons.prems have a: "item_key ` set l \<subseteq> dom sm"
    and b: "item_key ` set (concat ls) \<subseteq> dom sm" by auto
  show ?case
    using Cons.IH [OF b] merge_list_eq [OF a]
    by (simp add: first_occurrences_append Un_assoc image_Un)
qed

lemma fusion_eq:
  assumes "reciprocal_rank_fusion ls k = Inr out"
  shows "out = sort_reverse score_key
           (map (fused_item k ls) (first_occurrences {} (concat ls)))"
proof (cases "ls = []")
  case True
  with assms show ?thesis
    by (simp add: reciprocal_rank_fusion_def sort_reverse_def)
next
  case False
  with assms obtain sm where sm: "score_lists k ls Map.empty = Inr sm"
    by (auto simp: reciprocal_rank_fusion_def split: sum.splits)
  have d: "item_key ` set (concat ls) \<subseteq> dom sm"
    using score_lists_dom [OF sm] by simp
  have g: "score_get sm key = occurrence_score k ls key" for key
    using score_lists_get [OF sm, of key] by (simp add: score_get_def)
  have w: "with_score sm = fused_item k ls"
    by (rule ext) (simp add: with_score_def fused_item_def g)
  show ?thesis
    using assms False sm merge_lists_eq [OF d, of "{}" "[]"]
    by (simp add: reciprocal_rank_fusion_def w)
qed

lemma score_list_returns:
  "0 \<le> k \<Longrightarrow> \<forall>i\<in>set l. key_hashable (item_key i) \<Longrightarrow> \<exists>sm'. score_list k (Suc rank) l sm = Inr sm'"
  by (induction l arbitrary: rank sm) (auto simp: Let_def)

lemma score_lists_returns:
  "0 \<le> k \<Longrightarrow> \<forall>l\<in>set ls. \<forall>i\<in>set l. key_hashable (item_key i) \<Longrightarrow> \<exists>sm'. score_lists k ls sm = Inr sm'"
proof (induction ls arbitrary: sm)
  case Nil
  then show ?case by simp
next
  case (Cons l ls)
  from Cons.prems obtain sm1 where "score_list k (Suc 0) l sm = Inr sm1"
    using score_list_returns [of k l 0 sm] by auto
  then show ?case using Cons by (auto split: sum.splits)
qed

lemma fusion_returns:
  assumes "0 \<le> k" and "\<forall>l\<in>set ls. \<forall>i\<in>set l. key_hashable (item_key i)"
  shows "\<exists>out. reciprocal_rank_fusion ls k = Inr out"
proof -
  from score_lists_returns [OF assms] obtain sm where sm: "score_lists k ls Map.empty = Inr sm"
    by blast
  have d: "item_key ` set (concat ls) \<subseteq> dom sm"
    using score_lists_dom [OF sm] by simp
  show ?thesis
    using sm merge_lists_eq [OF d, of "{}" "[]"]
    by (simp add: reciprocal_rank_fusion_def)
qed

lemma set_insort_reverse: "set (insort_reverse f x ys) = insert x (set ys)"
  by (induction ys) auto

lemma set_sort_reverse: "set (sort_reverse f xs) = set xs"
  by (induction xs) (auto simp: sort_reverse_def set_insort_reverse)

lemma sort_reverse_Cons: "sort_reverse f (x # xs) = insort_reverse f x (sort_reverse f xs)"
  by (simp add: sort_reverse_def)

lemma distinct_map_insort_reverse:
  "distinct (map g (insort_reverse f x ys)) = (g x \<notin> g ` set ys \<and> distinct (map g ys))"
  by (induction ys) (auto simp: set_insort_reverse)

lemma distinct_map_sort_reverse:
  "distinct (map g (sort_reverse f xs)) = distinct (map g xs)"
  by (induction xs)
    (auto simp: sort_reverse_Cons sort_reverse_Nil distinct_map_insort_reverse set_sort_reverse)

lemma insort_reverse_stable:
  assumes "sorted_wrt (\<lambda>a b. f b < f a \<or> (f a = f b \<and> R a b)) ys"
    and "\<forall>y\<in>set ys. R x y"
  shows "sorted_wrt (\<lambda>a b. f b < f a \<or> (f a = f b \<and> R a b)) (insort_reverse f x ys)"
  using assms
proof (induction ys)
  case Nil
  then show ?case by simp
next
  case (Cons y ys)
  show ?case
  proof (cases "f y \<le> f x")
    case True
    have "f z < f x \<or> (f x = f z \<and> R x z)" if "z \<in> set (y # ys)" for z
    proof -
      have "f z \<le> f y" using that Cons.prems(1) by auto
      with True have "f z \<le> f x" by simp
      moreover have "R x z" using that Cons.prems(2) by auto
      ultimately show ?thesis by auto
    qed
    with True Cons.prems(1) show ?thesis by simp
  next
    case False
    then have "f x < f y" by simp
    moreover have "sorted_wrt (\<lambda>a b. f b < f a \<or> (f a = f b \<and> R a b)) (insort_reverse f x ys)"
      using Cons by simp
    ultimately show ?thesis
      using False Cons.prems(1) by (auto simp: set_insort_reverse)
  qed
qed

lemma sort_reverse_stable:
  "sorted_wrt R xs \<Longrightarrow>
   sorted_wrt (\<lambda>a b. f b < f a \<or> (f a = f b \<and> R a b)) (sort_reverse f xs)"
proof (induction xs)
  case Nil
  then show ?case by (simp add: sort_reverse_Nil)
next
  case (Cons x xs)
  then show ?case
    by (simp add: sort_reverse_Cons insort_reverse_stable set_sort_reverse)
qed

lemma first_occurrences_unseen:
  "e \<in> set (first_occurrences seen xs) \<Longrightarrow> item_key e \<notin> seen"
  by (induction xs arbitrary: seen) (auto split: if_splits)

lemma first_occurrences_keys:
  "item_key ` set (first_occurrences seen xs) = item_key ` set xs - seen"
  by (induction xs arbitrary: seen) auto

lemma first_occurrences_distinct:
  "distinct (map item_key (first_occurrences seen xs))"
  by (induction xs arbitrary: seen) (auto simp: first_occurrences_keys)

lemma first_occurrences_find:
  "e \<in> set (first_occurrences seen xs) \<Longrightarrow> find (\<lambda>i. item_key i = item_key e) xs = Some e"
proof (induction xs arbitrary: seen)
  case Nil
  then show ?case by simp
next
  case (Cons x xs)
  show ?case
  proof (cases "item_key x \<in> seen")
    case True
    with Cons.prems have e: "e \<in> set (first_occurrences seen xs)" by simp
    from first_occurrences_unseen [OF e] True have "item_key x \<noteq> item_key e" by auto
    with Cons.IH [OF e] show ?thesis by simp
  next
    case False
    show ?thesis
    proof (cases "e = x")
      case True
      then show ?thesis by simp
    next
      case ne: False
      with Cons.prems False have e: "e \<in> set (first_occurrences (insert (item_key x) seen) xs)"
        by simp
      from first_occurrences_unseen [OF e] have "item_key x \<noteq> item_key e" by auto
      with Cons.IH [OF e] show ?thesis by simp
    qed
  qed
qed

lemma first_index_Cons:
  "first_index key (x # xs) = (if item_key x = key then 0 else Suc (first_index key xs))"
  by (simp add: first_index_def)

lemma first_occurrences_order:
  "sorted_wrt (\<lambda>a b. first_index (item_key a) xs < first_index (item_key b) xs)
     (first_occurrences seen xs)"
proof (induction xs arbitrary: seen)
  case Nil
  then show ?case by simp
next
  case (Cons x xs)
  have lift: "sorted_wrt (\<lambda>a b. first_index (item_key a) (x # xs) < first_index (item_key b) (x # xs))
       (first_occurrences S xs)" if "item_key x \<in> S" for S
  proof (rule sorted_wrt_mono_rel [OF _ Cons.IH [of S]])
    fix a b
    assume a: "a \<in> set (first_occurrences S xs)" and b: "b \<in> set (first_occurrences S xs)"
      and lt: "first_index (item_key a) xs < first_index (item_key b) xs"
    from first_occurrences_unseen [OF a] first_occurrences_unseen [OF b] that
    have "item_key x \<noteq> item_key a" "item_key x \<noteq> item_key b" by auto
    with lt show "first_index (item_key a) (x # xs) < first_index (item_key b) (x # xs)"
      by (simp add: first_index_Cons)
  qed
  show ?case
  proof (cases "item_key x \<in> seen")
    case True
    then show ?thesis using lift [of seen] by simp
  next
    case False
    have "first_index (item_key x) (x # xs) < first_index (item_key b) (x # xs)"
      if "b \<in> set (first_occurrences (insert (item_key x) seen) xs)" for b
      using first_occurrences_unseen [OF that] by (auto simp: first_index_Cons)
    then show ?thesis
      using False lift [of "insert (item_key x) seen"] by simp
  qed
qed

lemma fused_items_order:
  "sorted_wrt (\<lambda>a b. first_index (item_key a) xs < first_index (item_key b) xs)
     (map (fused_item k ls) (first_occurrences seen xs))"
  using first_occurrences_order [of xs seen]
  by (simp add: sorted_wrt_map fused_item_def)

text \<open>
  The fusion raises only for an unhashable key or when \<open>k + rank = 0\<close> for some position
  (lemma \<open>fusion_returns\<close>: it returns a list for every \<open>k \<ge> 0\<close> when the keys are
  hashable). The claims below are about the list it returns.
\<close>

text \<open>
  Claim C3. Whenever the fusion returns a list, the list is sorted by fused score in
  descending order, and of two entries with equal fused scores the one whose key occurs
  first in the input (the ranked lists scanned in list order) comes first. The second
  part rests on the stability of the sort, which the model of \<^verbatim>\<open>list.sort\<close> has as
  Python's sort does.
\<close>

theorem fusion_sorted_stable:
  assumes "reciprocal_rank_fusion ranked_lists k = Inr out"
  shows "sorted_wrt (\<lambda>a b. score_key b \<le> score_key a) out
       \<and> sorted_wrt (\<lambda>a b. score_key a = score_key b \<longrightarrow>
            first_index (item_key a) (concat ranked_lists)
              < first_index (item_key b) (concat ranked_lists)) out"
proof -
  let ?R = "\<lambda>a b. first_index (item_key a) (concat ranked_lists)
              < first_index (item_key b) (concat ranked_lists)"
  have s: "sorted_wrt (\<lambda>a b. score_key b < score_key a \<or> (score_key a = score_key b \<and> ?R a b)) out"
    unfolding fusion_eq [OF assms]
    by (rule sort_reverse_stable) (rule fused_items_order)
  have "sorted_wrt (\<lambda>a b. score_key b \<le> score_key a) out"
    by (rule sorted_wrt_mono_rel [OF _ s]) auto
  moreover have "sorted_wrt (\<lambda>a b. score_key a = score_key b \<longrightarrow> ?R a b) out"
    by (rule sorted_wrt_mono_rel [OF _ s]) auto
  ultimately show ?thesis by simp
qed

theorem fusion_sorted_stable_witness:
  "reciprocal_rank_fusion
     [[ex_item ''pdf'' ''A'' ''a'', ex_item ''pdf'' ''B'' ''b''],
      [ex_item ''sas'' ''C'' ''c'', ex_item ''sas'' ''D'' ''d'']] 60
   = Inr [dict_set (ex_item ''pdf'' ''A'' ''a'') ''score'' (PFloat (1 / 61)),
          dict_set (ex_item ''sas'' ''C'' ''c'') ''score'' (PFloat (1 / 61)),
          dict_set (ex_item ''pdf'' ''B'' ''b'') ''score'' (PFloat (1 / 62)),
          dict_set (ex_item ''sas'' ''D'' ''d'') ''score'' (PFloat (1 / 62))]
   \<and> sorted_wrt (\<lambda>a b. score_key b \<le> score_key a)
        [dict_set (ex_item ''pdf'' ''A'' ''a'') ''score'' (PFloat (1 / 61)),
         dict_set (ex_item ''sas'' ''C'' ''c'') ''score'' (PFloat (1 / 61)),
         dict_set (ex_item ''pdf'' ''B'' ''b'') ''score'' (PFloat (1 / 62)),
         dict_set (ex_item ''sas'' ''D'' ''d'') ''score'' (PFloat (1 / 62))]
   \<and> sorted_wrt (\<lambda>a b. score_key a = score_key b \<longrightarrow>
            first_index (item_key a)
              (concat [[ex_item ''pdf'' ''A'' ''a'', ex_item ''pdf'' ''B'' ''b''],
                       [ex_item ''sas'' ''C'' ''c'', ex_item ''sas'' ''D'' ''d'']])
            < first_index (item_key b)
                (concat [[ex_item ''pdf'' ''A'' ''a'', ex_item ''pdf'' ''B'' ''b''],
                         [ex_item ''sas'' ''C'' ''c'', ex_item ''sas'' ''D'' ''d'']]))
        [dict_set (ex_item ''pdf'' ''A'' ''a'') ''score'' (PFloat (1 / 61)),
         dict_set (ex_item ''sas'' ''C'' ''c'') ''score'' (PFloat (1 / 61)),
         dict_set (ex_item ''pdf'' ''B'' ''b'') ''score'' (PFloat (1 / 62)),
         dict_set (ex_item ''sas'' ''D'' ''d'') ''score'' (PFloat (1 / 62))]
   \<and> score_key (dict_set (ex_item ''pdf'' ''A'' ''a'') ''score'' (PFloat (1 / 61)))
       = score_key (dict_set (ex_item ''sas'' ''C'' ''c'') ''score'' (PFloat (1 / 61)))
   \<and> first_index (PStr ''pdf'', PStr ''A'')
        (concat [[ex_item ''pdf'' ''A'' ''a'', ex_item ''pdf'' ''B'' ''b''],
                 [ex_item ''sas'' ''C'' ''c'', ex_item ''sas'' ''D'' ''d'']]) = 0
   \<and> first_index (PStr ''sas'', PStr ''C'')
        (concat [[ex_item ''pdf'' ''A'' ''a'', ex_item ''pdf'' ''B'' ''b''],
                 [ex_item ''sas'' ''C'' ''c'', ex_item ''sas'' ''D'' ''d'']]) = 2"
proof -
  let ?ls = "[[ex_item ''pdf'' ''A'' ''a'', ex_item ''pdf'' ''B'' ''b''],
      [ex_item ''sas'' ''C'' ''c'', ex_item ''sas'' ''D'' ''d'']]"
  let ?out = "[dict_set (ex_item ''pdf'' ''A'' ''a'') ''score'' (PFloat (1 / 61)),
          dict_set (ex_item ''sas'' ''C'' ''c'') ''score'' (PFloat (1 / 61)),
          dict_set (ex_item ''pdf'' ''B'' ''b'') ''score'' (PFloat (1 / 62)),
          dict_set (ex_item ''sas'' ''D'' ''d'') ''score'' (PFloat (1 / 62))]"
  have r: "reciprocal_rank_fusion ?ls 60 = Inr ?out"
    by (simp add: reciprocal_rank_fusion_def ex_item_def item_key_def dict_get_def key_hashable_def
      score_get_def sort_reverse_def score_key_def)
  have s: "sorted_wrt (\<lambda>a b. score_key b \<le> score_key a) ?out"
    using fusion_sorted_stable [OF r] by blast
  have t: "sorted_wrt (\<lambda>a b. score_key a = score_key b \<longrightarrow>
            first_index (item_key a) (concat ?ls) < first_index (item_key b) (concat ?ls)) ?out"
    using fusion_sorted_stable [OF r] by blast
  have q: "score_key (dict_set (ex_item ''pdf'' ''A'' ''a'') ''score'' (PFloat (1 / 61)))
       = score_key (dict_set (ex_item ''sas'' ''C'' ''c'') ''score'' (PFloat (1 / 61)))"
    by simp
  have i: "first_index (PStr ''pdf'', PStr ''A'') (concat ?ls) = 0"
    "first_index (PStr ''sas'', PStr ''C'') (concat ?ls) = 2"
    by (simp_all add: first_index_def ex_item_def item_key_def dict_get_def)
  show ?thesis using r s t q i by blast
qed

lemma fused_item_score: "map_of (fused_item k ls i) ''score'' = Some (PFloat (occurrence_score k ls (item_key i)))"
  by (simp add: fused_item_def map_of_dict_set)

lemma fused_item_key [simp]: "item_key (fused_item k ls i) = item_key i"
  by (simp add: fused_item_def)

lemma fused_item_score_key [simp]: "score_key (fused_item k ls i) = occurrence_score k ls (item_key i)"
  by (simp add: fused_item_def)

lemma fusion_member:
  assumes "reciprocal_rank_fusion ls k = Inr out" and "e \<in> set out"
  obtains src where "src \<in> set (first_occurrences {} (concat ls))" and "e = fused_item k ls src"
  using assms(2) unfolding fusion_eq [OF assms(1)] set_sort_reverse by auto







lemma count_key_distinct:
  "distinct (map f xs) \<Longrightarrow>
   length (filter (\<lambda>e. f e = key) xs) = (if key \<in> f ` set xs then 1 else 0)"
  by (induction xs) auto

lemma fusion_keys_distinct:
  assumes "reciprocal_rank_fusion ls k = Inr out"
  shows "distinct (map item_key out)"
  unfolding fusion_eq [OF assms] distinct_map_sort_reverse
  using first_occurrences_distinct [of "{}" "concat ls"]
  by (simp add: comp_def)

lemma fusion_keys:
  assumes "reciprocal_rank_fusion ls k = Inr out"
  shows "item_key ` set out = item_key ` set (concat ls)"
proof -
  have "item_key ` set out = item_key ` set (first_occurrences {} (concat ls))"
    unfolding fusion_eq [OF assms] set_sort_reverse
    by (simp add: image_comp comp_def del: set_concat)
  then show ?thesis
    by (simp add: first_occurrences_keys del: set_concat)
qed

lemma dict_set_other: "f \<noteq> key \<Longrightarrow> map_of (dict_set d key v) f = map_of d f"
  by (simp add: map_of_dict_set)

text \<open>
  Claim C2. Whenever the fusion returns a list, the list has exactly one entry for each
  key that occurs in the input and none for any other key; keys with the same chunk id
  and different corpora are different keys. Each entry is the first item with its key in
  the input, the ranked lists scanned in list order, with \<^verbatim>\<open>"score"\<close> set to the fused
  score: its text, its metadata and every field other than the score are those of that
  item.
\<close>

theorem fusion_dedup:
  assumes "reciprocal_rank_fusion ranked_lists k = Inr out"
  shows "(\<forall>key. length (filter (\<lambda>e. item_key e = key) out)
             = (if key \<in> item_key ` set (concat ranked_lists) then 1 else 0))
       \<and> (\<forall>e\<in>set out. \<exists>src.
             find (\<lambda>i. item_key i = item_key e) (concat ranked_lists) = Some src
           \<and> e = dict_set src ''score'' (PFloat (occurrence_score k ranked_lists (item_key src)))
           \<and> map_of e ''text'' = map_of src ''text''
           \<and> map_of e ''metadata'' = map_of src ''metadata''
           \<and> (\<forall>field. field \<noteq> ''score'' \<longrightarrow> map_of e field = map_of src field))"
proof -
  have one: "length (filter (\<lambda>e. item_key e = key) out)
             = (if key \<in> item_key ` set (concat ranked_lists) then 1 else 0)" for key
    using count_key_distinct [OF fusion_keys_distinct [OF assms], of key]
    unfolding fusion_keys [OF assms] .
  have first: "\<exists>src.
             find (\<lambda>i. item_key i = item_key e) (concat ranked_lists) = Some src
           \<and> e = dict_set src ''score'' (PFloat (occurrence_score k ranked_lists (item_key src)))
           \<and> map_of e ''text'' = map_of src ''text''
           \<and> map_of e ''metadata'' = map_of src ''metadata''
           \<and> (\<forall>field. field \<noteq> ''score'' \<longrightarrow> map_of e field = map_of src field)"
    if "e \<in> set out" for e
  proof -
    from assms that obtain src where src: "src \<in> set (first_occurrences {} (concat ranked_lists))"
      and e: "e = fused_item k ranked_lists src"
      by (rule fusion_member)
    have "find (\<lambda>i. item_key i = item_key e) (concat ranked_lists) = Some src"
      using first_occurrences_find [OF src] by (simp add: e)
    moreover have "e = dict_set src ''score'' (PFloat (occurrence_score k ranked_lists (item_key src)))"
      by (simp add: e fused_item_def)
    moreover have "\<forall>field. field \<noteq> ''score'' \<longrightarrow> map_of e field = map_of src field"
      by (simp add: e fused_item_def dict_set_other)
    ultimately show ?thesis by auto
  qed
  from one first show ?thesis by blast
qed

theorem fusion_dedup_witness:
  "reciprocal_rank_fusion
     [[ex_item ''pdf'' ''chunk_1'' ''first text''],
      [ex_item ''sas'' ''chunk_1'' ''other corpus'', ex_item ''pdf'' ''chunk_1'' ''second text'']] 60
   = Inr [dict_set (ex_item ''pdf'' ''chunk_1'' ''first text'') ''score'' (PFloat (1 / 61 + 1 / 62)),
          dict_set (ex_item ''sas'' ''chunk_1'' ''other corpus'') ''score'' (PFloat (1 / 61))]
   \<and> length (filter (\<lambda>e. item_key e = (PStr ''pdf'', PStr ''chunk_1''))
        [dict_set (ex_item ''pdf'' ''chunk_1'' ''first text'') ''score'' (PFloat (1 / 61 + 1 / 62)),
         dict_set (ex_item ''sas'' ''chunk_1'' ''other corpus'') ''score'' (PFloat (1 / 61))]) = 1
   \<and> map_of (dict_set (ex_item ''pdf'' ''chunk_1'' ''first text'') ''score'' (PFloat (1 / 61 + 1 / 62))) ''text''
       = Some (PStr ''first text'')"
proof -
  let ?ls = "[[ex_item ''pdf'' ''chunk_1'' ''first text''],
      [ex_item ''sas'' ''chunk_1'' ''other corpus'', ex_item ''pdf'' ''chunk_1'' ''second text'']]"
  let ?out = "[dict_set (ex_item ''pdf'' ''chunk_1'' ''first text'') ''score'' (PFloat (1 / 61 + 1 / 62)),
          dict_set (ex_item ''sas'' ''chunk_1'' ''other corpus'') ''score'' (PFloat (1 / 61))]"
  have r: "reciprocal_rank_fusion ?ls 60 = Inr ?out"
    by (simp add: reciprocal_rank_fusion_def ex_item_def item_key_def dict_get_def key_hashable_def
      score_get_def sort_reverse_def score_key_def)
  have m: "(PStr ''pdf'', PStr ''chunk_1'') \<in> item_key ` set (concat ?ls)"
    by (simp add: ex_item_def item_key_def dict_get_def)
  have c: "length (filter (\<lambda>e. item_key e = (PStr ''pdf'', PStr ''chunk_1'')) ?out) = 1"
    using fusion_dedup [OF r] m by presburger
  have t: "map_of (dict_set (ex_item ''pdf'' ''chunk_1'' ''first text'') ''score'' (PFloat (1 / 61 + 1 / 62))) ''text''
       = Some (PStr ''first text'')"
    by (simp add: ex_item_def)
  show ?thesis using r c t by blast
qed

lemma fusion_item_score:
  assumes "reciprocal_rank_fusion ls k = Inr out" and "e \<in> set out"
  shows "map_of e ''score'' = Some (PFloat (occurrence_score k ls (item_key e)))"
    and "score_key e = occurrence_score k ls (item_key e)"
proof -
  from assms obtain src where e: "e = fused_item k ls src"
    by (rule fusion_member)
  show "map_of e ''score'' = Some (PFloat (occurrence_score k ls (item_key e)))"
    by (simp add: e fused_item_score)
  show "score_key e = occurrence_score k ls (item_key e)"
    by (simp add: e)
qed

lemma fusion_count_key:
  assumes "reciprocal_rank_fusion ls k = Inr out"
  shows "length (filter (\<lambda>e. item_key e = key) out)
             = (if key \<in> item_key ` set (concat ls) then 1 else 0)"
  using count_key_distinct [OF fusion_keys_distinct [OF assms], of key]
  unfolding fusion_keys [OF assms] .





subsection \<open>Rounding to double precision\<close>

lemma two_powi_less_exp: "(2::rat) powi m < 2 powi n \<Longrightarrow> m < n"
  using power_int_increasing [of n m "2::rat"] by (cases "m < n") auto

lemma two_powi_pos: "(0::rat) < 2 powi n"
  by simp

lemma ilog2_nonneg: "0 \<le> ilog2 n"
  by (induction n rule: ilog2.induct) (simp add: ilog2.simps)

lemma ilog2_bounds: "0 < n \<Longrightarrow> 2 ^ nat (ilog2 n) \<le> n \<and> n < 2 ^ nat (ilog2 n + 1)"
proof (induction n rule: ilog2.induct)
  case (1 n)
  show ?case
  proof (cases "n < 2")
    case True
    with "1.prems" show ?thesis by (simp add: ilog2.simps)
  next
    case False
    then have pos: "0 < n div 2" by simp
    with "1.IH" False have ih: "2 ^ nat (ilog2 (n div 2)) \<le> n div 2"
      "n div 2 < 2 ^ nat (ilog2 (n div 2) + 1)"
      by simp_all
    have e: "ilog2 n = ilog2 (n div 2) + 1" using False by (simp add: ilog2.simps)
    have s: "nat (ilog2 (n div 2) + 1) = Suc (nat (ilog2 (n div 2)))"
      "nat (ilog2 (n div 2) + 1 + 1) = Suc (Suc (nat (ilog2 (n div 2))))"
      using ilog2_nonneg [of "n div 2"] by simp_all
    from ih show ?thesis unfolding e s by auto
  qed
qed

lemma ilog2_bounds_rat:
  assumes "0 < n"
  shows "2 powi ilog2 n \<le> (of_int n :: rat)" and "(of_int n :: rat) < 2 powi (ilog2 n + 1)"
proof -
  from ilog2_bounds [OF assms] have a: "2 ^ nat (ilog2 n) \<le> n" and b: "n < 2 ^ nat (ilog2 n + 1)"
    by simp_all
  have "(of_int (2 ^ nat (ilog2 n)) :: rat) \<le> of_int n" using a by (simp only: of_int_le_iff)
  then show "2 powi ilog2 n \<le> (of_int n :: rat)"
    using ilog2_nonneg [of n] by (simp add: power_int_def)
  have "(of_int n :: rat) < of_int (2 ^ nat (ilog2 n + 1))" using b by (simp only: of_int_less_iff)
  then show "(of_int n :: rat) < 2 powi (ilog2 n + 1)"
    using ilog2_nonneg [of n] by (simp add: power_int_def)
qed

lemma binade_bounds:
  assumes "0 < x"
  shows "2 powi binade x \<le> x" and "x < 2 powi (binade x + 1)"
proof -
  obtain p q where pq: "quotient_of x = (p, q)" by (cases "quotient_of x")
  have q: "0 < q" using quotient_of_denom_pos [OF pq] .
  have x: "x = of_int p / of_int q" using quotient_of_div [OF pq] .
  have p: "0 < p" using assms q unfolding x by (simp add: zero_less_divide_iff)
  let ?a = "ilog2 p" and ?b = "ilog2 q"
  note P = ilog2_bounds_rat [OF p] and Q = ilog2_bounds_rat [OF q]
  have qpos: "(0::rat) < of_int q" using q by simp
  have up: "x < 2 powi (?a - ?b + 1)"
  proof -
    have "x < 2 powi (?a + 1) / of_int q"
      unfolding x using P(2) qpos by (simp add: divide_strict_right_mono)
    also have "\<dots> \<le> 2 powi (?a + 1) / 2 powi ?b"
      using Q(1) qpos by (intro divide_left_mono mult_pos_pos two_powi_pos) simp_all
    also have "\<dots> = 2 powi (?a - ?b + 1)"
      by (simp add: power_int_diff [symmetric] algebra_simps)
    finally show ?thesis .
  qed
  have low: "2 powi (?a - ?b - 1) < x"
  proof -
    have "2 powi (?a - ?b - 1) = 2 powi ?a / (2 powi (?b + 1) :: rat)"
      by (simp add: power_int_diff [symmetric] algebra_simps)
    also have "\<dots> < 2 powi ?a / of_int q"
      using Q(2) qpos by (intro divide_strict_left_mono) simp_all
    also have "\<dots> \<le> x"
      unfolding x using P(1) qpos by (simp add: divide_right_mono)
    finally show ?thesis .
  qed
  have b: "binade x = (if 2 powi (?a - ?b) \<le> x then ?a - ?b else ?a - ?b - 1)"
    by (simp add: binade_def pq Let_def)
  show "2 powi binade x \<le> x"
    using low unfolding b by auto
  show "x < 2 powi (binade x + 1)"
    using up unfolding b by (auto simp: not_le)
qed

lemma binade_unique:
  assumes "2 powi e \<le> x" and "x < 2 powi (e + 1)"
  shows "binade x = e"
proof -
  have pos: "0 < x" using assms(1) by (rule less_le_trans [rotated]) simp
  note B = binade_bounds [OF pos]
  have "2 powi e < (2::rat) powi (binade x + 1)" using assms(1) B(2) by simp
  then have a: "e < binade x + 1" by (rule two_powi_less_exp)
  have "2 powi binade x < (2::rat) powi (e + 1)" using assms(2) B(1) by simp
  then have b: "binade x < e + 1" by (rule two_powi_less_exp)
  from a b show ?thesis by simp
qed




















lemma score_list_float_step:
  assumes "score_list_float k rank (item # rest) sm = Inr sm'"
  shows "score_list_float k (Suc rank) rest
           (sm(item_key item \<mapsto> float_add (score_get sm (item_key item)) (float_contribution k rank)))
         = Inr sm'"
proof -
  from assms obtain x c where x: "float_of_int (k + int rank) = Inr x"
    and c: "float_truediv 1 x = Inr c"
    and r: "score_list_float k (Suc rank) rest
           (sm(item_key item \<mapsto> float_add (score_get sm (item_key item)) c)) = Inr sm'"
    by (auto simp: Let_def split: if_splits sum.splits)
  from x have "x = round_double (of_int (k + int rank))"
    by (auto simp: float_of_int_def Let_def split: if_splits)
  moreover from c have "c = round_double (1 / x)"
    by (auto simp: float_truediv_def split: if_splits)
  ultimately have "c = float_contribution k rank"
    by (simp add: float_contribution_def)
  with r show ?thesis by simp
qed












lemma round_half_even_nearest:
  assumes "\<bar>y - of_int m\<bar> < 1 / 2"
  shows "round_half_even y = m"
proof -
  from assms have a: "of_int m - 1 / 2 < y" and b: "y < of_int m + 1 / 2" by linarith+
  have "\<lfloor>y\<rfloor> = m \<or> \<lfloor>y\<rfloor> = m - 1"
    using a b by (simp add: floor_eq_iff) linarith
  then show ?thesis
  proof
    assume f: "\<lfloor>y\<rfloor> = m"
    then show ?thesis using b by (simp add: round_half_even_def Let_def)
  next
    assume f: "\<lfloor>y\<rfloor> = m - 1"
    then show ?thesis using a by (auto simp: round_half_even_def Let_def)
  qed
qed

lemma round_double_eval:
  assumes "2 powi e \<le> x" and "x < 2 powi (e + 1)"
    and "\<bar>x / 2 powi (max (e - 52) (- 1074)) - of_int m\<bar> < 1 / 2"
  shows "round_double x = of_int m * 2 powi (max (e - 52) (- 1074))"
proof -
  have pos: "0 < x" using assms(1) by (rule less_le_trans [rotated]) simp
  have b: "binade x = e" using assms(1,2) by (rule binade_unique)
  show ?thesis
    using pos round_half_even_nearest [OF assms(3)]
    by (simp add: round_double_def round_pos_def ulp_exponent_def b)
qed


lemma double_values_60:
  "round_double 61 = 61"
  "round_double 62 = 62"
  "round_double (1 / 61) = 4725088133634619 / 288230376151711744"
  "round_double (1 / 62) = 1162219258676257 / 72057594037927936"
  "round_double (4725088133634619 / 288230376151711744) = 4725088133634619 / 288230376151711744"
  "round_double (1162219258676257 / 72057594037927936) = 1162219258676257 / 72057594037927936"
  "round_double (4725088133634619 / 144115188075855872) = 4725088133634619 / 144115188075855872"
  using round_double_eval [of 5 61 "61 * 2 ^ 47"]
    round_double_eval [of 5 62 "62 * 2 ^ 47"]
    round_double_eval [of "- 6" "1 / 61" 4725088133634619]
    round_double_eval [of "- 6" "1 / 62" 4648877034705028]
    round_double_eval [of "- 6" "4725088133634619 / 288230376151711744" 4725088133634619]
    round_double_eval [of "- 6" "1162219258676257 / 72057594037927936" 4648877034705028]
    round_double_eval [of "- 5" "4725088133634619 / 144115188075855872" 4725088133634619]
  by (simp_all add: power_int_minus_divide)





lemma filter_length_one: "length (filter P xs) = 1 \<Longrightarrow> \<exists>e. filter P xs = [e]"
  by (cases "filter P xs") auto

text \<open>
  Claim C10. In the key of an item, a field that the item has is taken as it is and a
  field that it does not have is replaced by the empty string, for \<^verbatim>\<open>"corpus"\<close> and for
  \<^verbatim>\<open>"chunk_id"\<close> alike. An item without both gets the key of two empty strings. So two
  such items anywhere in the input, whatever else they hold, are merged: the list that
  the fusion returns has a single entry with this key, and its score is the sum of the
  rank contributions of all the positions that hold an item with this key. Two ranked
  lists of one such item each, when the fusion returns, fuse into the first item with
  the score \<open>1 / (k + 1) + 1 / (k + 1)\<close>; in double precision, with the sum of the two
  float contributions of rank 1.
\<close>

theorem fusion_missing_fields:
  "(map_of i ''corpus'' = None \<longrightarrow> fst (item_key i) = PStr '''')
   \<and> (map_of i ''chunk_id'' = None \<longrightarrow> snd (item_key i) = PStr '''')
   \<and> (map_of i ''corpus'' = Some c \<longrightarrow> fst (item_key i) = c)
   \<and> (map_of i ''chunk_id'' = Some d \<longrightarrow> snd (item_key i) = d)
   \<and> (map_of a ''corpus'' = None \<and> map_of a ''chunk_id'' = None
      \<and> map_of b ''corpus'' = None \<and> map_of b ''chunk_id'' = None \<longrightarrow>
        item_key a = (PStr '''', PStr '''') \<and> item_key b = (PStr '''', PStr '''')
      \<and> (\<forall>ranked_lists k out.
             a \<in> set (concat ranked_lists) \<and> b \<in> set (concat ranked_lists)
             \<and> reciprocal_rank_fusion ranked_lists k = Inr out \<longrightarrow>
             (\<exists>e. filter (\<lambda>e. item_key e = (PStr '''', PStr '''')) out = [e]
                \<and> map_of e ''score''
                    = Some (PFloat (occurrence_score k ranked_lists (PStr '''', PStr '''')))))
      \<and> (\<forall>k out. reciprocal_rank_fusion [[a], [b]] k = Inr out \<longrightarrow>
             out = [dict_set a ''score'' (PFloat (1 / of_int (k + 1) + 1 / of_int (k + 1)))])
      \<and> (\<forall>k out. reciprocal_rank_fusion_float [[a], [b]] k = Inr out \<longrightarrow>
             out = [dict_set a ''score''
                      (PFloat (float_add (float_add 0 (float_contribution k 1))
                                 (float_contribution k 1)))]))"
proof -
  have keys: "map_of i ''corpus'' = None \<longrightarrow> fst (item_key i) = PStr ''''"
    "map_of i ''chunk_id'' = None \<longrightarrow> snd (item_key i) = PStr ''''"
    "map_of i ''corpus'' = Some c \<longrightarrow> fst (item_key i) = c"
    "map_of i ''chunk_id'' = Some d \<longrightarrow> snd (item_key i) = d"
    by (simp_all add: item_key_def dict_get_def)
  have both: "item_key a = (PStr '''', PStr '''') \<and> item_key b = (PStr '''', PStr '''')
      \<and> (\<forall>ranked_lists k out.
             a \<in> set (concat ranked_lists) \<and> b \<in> set (concat ranked_lists)
             \<and> reciprocal_rank_fusion ranked_lists k = Inr out \<longrightarrow>
             (\<exists>e. filter (\<lambda>e. item_key e = (PStr '''', PStr '''')) out = [e]
                \<and> map_of e ''score''
                    = Some (PFloat (occurrence_score k ranked_lists (PStr '''', PStr '''')))))
      \<and> (\<forall>k out. reciprocal_rank_fusion [[a], [b]] k = Inr out \<longrightarrow>
             out = [dict_set a ''score'' (PFloat (1 / of_int (k + 1) + 1 / of_int (k + 1)))])
      \<and> (\<forall>k out. reciprocal_rank_fusion_float [[a], [b]] k = Inr out \<longrightarrow>
             out = [dict_set a ''score''
                      (PFloat (float_add (float_add 0 (float_contribution k 1))
                                 (float_contribution k 1)))])"
    if h: "map_of a ''corpus'' = None" "map_of a ''chunk_id'' = None"
      "map_of b ''corpus'' = None" "map_of b ''chunk_id'' = None"
  proof -
    have ka: "item_key a = (PStr '''', PStr '''')" and kb: "item_key b = (PStr '''', PStr '''')"
      using h by (simp_all add: item_key_def dict_get_def)
    have merged: "\<exists>e. filter (\<lambda>e. item_key e = (PStr '''', PStr '''')) out = [e]
                \<and> map_of e ''score''
                    = Some (PFloat (occurrence_score k ls (PStr '''', PStr '''')))"
      if "a \<in> set (concat ls)" and "reciprocal_rank_fusion ls k = Inr out" for ls k out
    proof -
      have "(PStr '''', PStr '''') \<in> item_key ` set (concat ls)"
        using that(1) ka by (metis imageI)
      then have "length (filter (\<lambda>e. item_key e = (PStr '''', PStr '''')) out) = 1"
        using fusion_count_key [OF that(2), of "(PStr '''', PStr '''')"] by simp
      then obtain e where e: "filter (\<lambda>e. item_key e = (PStr '''', PStr '''')) out = [e]"
        using filter_length_one by blast
      then have "e \<in> set (filter (\<lambda>e. item_key e = (PStr '''', PStr '''')) out)" by simp
      then have "e \<in> set out" and "item_key e = (PStr '''', PStr '''')" by simp_all
      with fusion_item_score(1) [OF that(2), of e] e show ?thesis by simp
    qed
    have two: "out = [dict_set a ''score'' (PFloat (1 / of_int (k + 1) + 1 / of_int (k + 1)))]"
      if "reciprocal_rank_fusion [[a], [b]] k = Inr out" for k out
      using that
      by (auto simp: reciprocal_rank_fusion_def ka kb key_hashable_def score_get_def
          sort_reverse_def Let_def split: if_splits)
    have two_float: "out = [dict_set a ''score''
                      (PFloat (float_add (float_add 0 (float_contribution k 1))
                                 (float_contribution k 1)))]"
      if r: "reciprocal_rank_fusion_float [[a], [b]] k = Inr out" for k out
    proof -
      from r obtain sm1 sm2 where s1: "score_list_float k 1 [a] Map.empty = Inr sm1"
        and s2: "score_list_float k 1 [b] sm1 = Inr sm2"
        by (auto simp: reciprocal_rank_fusion_float_def simp del: score_list_float.simps
            split: sum.splits)
      have m1: "sm1 = [(PStr '''', PStr '''') \<mapsto> float_add 0 (float_contribution k 1)]"
        using score_list_float_step [OF s1] by (simp add: ka score_get_def)
      have m2: "sm2 = [(PStr '''', PStr '''') \<mapsto>
          float_add (float_add 0 (float_contribution k 1)) (float_contribution k 1)]"
        using score_list_float_step [OF s2] by (simp add: kb m1 score_get_def)
      show ?thesis
        using r s1 s2
        by (simp add: reciprocal_rank_fusion_float_def m2 ka kb sort_reverse_def
            del: score_list_float.simps)
    qed
    from ka kb merged two two_float show ?thesis by blast
  qed
  from keys both show ?thesis by blast
qed

theorem fusion_missing_fields_witness:
  "map_of (ex_bare ''one'') ''corpus'' = None \<and> map_of (ex_bare ''one'') ''chunk_id'' = None
   \<and> map_of (ex_bare ''two'') ''corpus'' = None \<and> map_of (ex_bare ''two'') ''chunk_id'' = None
   \<and> reciprocal_rank_fusion [[ex_bare ''one''], [ex_bare ''two'']] 60
       = Inr [[(''text'', PStr ''one''), (''score'', PFloat (2 / 61))]]
   \<and> reciprocal_rank_fusion_float [[ex_bare ''one''], [ex_bare ''two'']] 60
       = Inr [[(''text'', PStr ''one''),
               (''score'', PFloat (4725088133634619 / 144115188075855872))]]
   \<and> float_add (float_add 0 (float_contribution 60 1)) (float_contribution 60 1)
       = 4725088133634619 / 144115188075855872
   \<and> map_of ex_corpus_only ''corpus'' = Some (PStr ''pdf'')
   \<and> map_of ex_corpus_only ''chunk_id'' = None
   \<and> item_key ex_corpus_only = (PStr ''pdf'', PStr '''')
   \<and> map_of ex_chunk_only ''corpus'' = None
   \<and> map_of ex_chunk_only ''chunk_id'' = Some (PStr ''c1'')
   \<and> item_key ex_chunk_only = (PStr '''', PStr ''c1'')"
proof -
  have h: "map_of (ex_bare ''one'') ''corpus'' = None" "map_of (ex_bare ''one'') ''chunk_id'' = None"
    "map_of (ex_bare ''two'') ''corpus'' = None" "map_of (ex_bare ''two'') ''chunk_id'' = None"
    by (simp_all add: ex_bare_def)
  have r: "reciprocal_rank_fusion [[ex_bare ''one''], [ex_bare ''two'']] 60
       = Inr [[(''text'', PStr ''one''), (''score'', PFloat (2 / 61))]]"
    by (simp add: reciprocal_rank_fusion_def ex_bare_def item_key_def dict_get_def
        key_hashable_def score_get_def sort_reverse_def)
  have "[[(''text'', PStr ''one''), (''score'', PFloat (2 / 61))]]
       = [dict_set (ex_bare ''one'') ''score'' (PFloat (1 / of_int (60 + 1) + 1 / of_int (60 + 1)))]"
    using fusion_missing_fields [of _ _ _ "ex_bare ''one''" "ex_bare ''two''"] h r by blast
  have rf: "reciprocal_rank_fusion_float [[ex_bare ''one''], [ex_bare ''two'']] 60
       = Inr [[(''text'', PStr ''one''),
               (''score'', PFloat (4725088133634619 / 144115188075855872))]]"
    by (simp add: reciprocal_rank_fusion_float_def ex_bare_def item_key_def dict_get_def
        key_hashable_def score_get_def sort_reverse_def float_of_int_def
        float_truediv_def float_add_def double_values_60)
  have "[[(''text'', PStr ''one''),
          (''score'', PFloat (4725088133634619 / 144115188075855872))]]
       = [dict_set (ex_bare ''one'') ''score''
            (PFloat (float_add (float_add 0 (float_contribution 60 1))
                       (float_contribution 60 1)))]"
    using fusion_missing_fields [of _ _ _ "ex_bare ''one''" "ex_bare ''two''"] h rf by blast
  then have fs: "float_add (float_add 0 (float_contribution 60 1)) (float_contribution 60 1)
       = 4725088133634619 / 144115188075855872"
    by (simp add: ex_bare_def)
  have c: "map_of ex_corpus_only ''corpus'' = Some (PStr ''pdf'')"
    "map_of ex_corpus_only ''chunk_id'' = None"
    "map_of ex_chunk_only ''corpus'' = None"
    "map_of ex_chunk_only ''chunk_id'' = Some (PStr ''c1'')"
    by (simp_all add: ex_corpus_only_def ex_chunk_only_def)
  have k1: "item_key ex_corpus_only = (PStr ''pdf'', PStr '''')"
    using fusion_missing_fields [of ex_corpus_only "PStr ''pdf''"] c(1,2)
    by (metis prod.collapse)
  have k2: "item_key ex_chunk_only = (PStr '''', PStr ''c1'')"
    using fusion_missing_fields [of ex_chunk_only _ "PStr ''c1''"] c(3,4)
    by (metis prod.collapse)
  show ?thesis
    by (intro conjI) (fact h r rf fs c k1 k2)+
qed


section \<open>Properties of the retriever facade\<close>

lemma dict_set_keys: "fst ` set (dict_set d key v) = insert key (fst ` set d)"
  by (induction d key v rule: dict_set.induct) auto

lemma load_corpus_loaded: "loaded (fst (load_corpus e bucket name entry s)) = loaded s"
  by (simp add: load_corpus_def Let_def split: option.splits sum.splits)

lemma load_corpus_manifest: "manifest (fst (load_corpus e bucket name entry s)) = manifest s"
  by (simp add: load_corpus_def Let_def split: option.splits sum.splits)

lemma load_corpus_mismatch:
  assumes "download_error (store e bucket name) = None"
    and "read_index (store e bucket name) = Inr index"
    and "index_d index \<noteq> dimension entry"
  shows "load_corpus e bucket name entry s
           = (s, Some (ValueError_dimension_mismatch (index_d index) (dimension entry)))"
  using assms by (simp add: load_corpus_def Let_def)

lemma load_corpus_ok_keys:
  assumes "load_corpus e bucket name entry s = (s', None)"
  shows "fst ` set (indices s') = insert name (fst ` set (indices s))"
    and "fst ` set (id_maps s') = insert name (fst ` set (id_maps s))"
    and "fst ` set (doc_maps s') = insert name (fst ` set (doc_maps s))"
    and "fst ` set (corpus_counts s') = insert name (fst ` set (corpus_counts s))"
proof -
  from assms obtain index id_lines doc_lines where
    "s' = s\<lparr>indices := dict_set (indices s) name index,
             id_maps := dict_set (id_maps s) name (load_id_map id_lines []),
             doc_maps := dict_set (doc_maps s) name (load_doc_map doc_lines []),
             corpus_counts := dict_set (corpus_counts s) name (entry_count entry)\<rparr>"
    by (auto simp: load_corpus_def Let_def split: option.splits sum.splits if_splits)
  then show "fst ` set (indices s') = insert name (fst ` set (indices s))"
    and "fst ` set (id_maps s') = insert name (fst ` set (id_maps s))"
    and "fst ` set (doc_maps s') = insert name (fst ` set (doc_maps s))"
    and "fst ` set (corpus_counts s') = insert name (fst ` set (corpus_counts s))"
    by (simp_all add: dict_set_keys)
qed

lemma load_corpora_loaded: "loaded (fst (load_corpora e bucket cs s)) = loaded s"
proof (induction cs arbitrary: s)
  case Nil
  then show ?case by simp
next
  case (Cons c cs)
  obtain name entry where c: "c = (name, entry)" by (cases c)
  obtain s' r where l: "load_corpus e bucket name entry s = (s', r)"
    by (cases "load_corpus e bucket name entry s")
  have "loaded s' = loaded s"
    using load_corpus_loaded [of e bucket name entry s] l by simp
  then show ?case
    using Cons.IH [of s'] c l by (cases r) simp_all
qed

lemma load_corpora_manifest: "manifest (fst (load_corpora e bucket cs s)) = manifest s"
proof (induction cs arbitrary: s)
  case Nil
  then show ?case by simp
next
  case (Cons c cs)
  obtain name entry where c: "c = (name, entry)" by (cases c)
  obtain s' r where l: "load_corpus e bucket name entry s = (s', r)"
    by (cases "load_corpus e bucket name entry s")
  have "manifest s' = manifest s"
    using load_corpus_manifest [of e bucket name entry s] l by simp
  then show ?case
    using Cons.IH [of s'] c l by (cases r) simp_all
qed

lemma load_corpora_append:
  "load_corpora e bucket (xs @ ys) s =
     (case load_corpora e bucket xs s of
        (s', Some err) \<Rightarrow> (s', Some err)
      | (s', None) \<Rightarrow> load_corpora e bucket ys s')"
proof (induction xs arbitrary: s)
  case Nil
  then show ?case by simp
next
  case (Cons c xs)
  obtain name entry where c: "c = (name, entry)" by (cases c)
  obtain s' r where l: "load_corpus e bucket name entry s = (s', r)"
    by (cases "load_corpus e bucket name entry s")
  show ?case
    using Cons.IH [of s'] c l by (cases r) simp_all
qed

lemma load_corpora_ok_keys:
  assumes "load_corpora e bucket cs s = (s', None)"
  shows "fst ` set (indices s') = fst ` set (indices s) \<union> fst ` set cs
       \<and> fst ` set (id_maps s') = fst ` set (id_maps s) \<union> fst ` set cs
       \<and> fst ` set (doc_maps s') = fst ` set (doc_maps s) \<union> fst ` set cs
       \<and> fst ` set (corpus_counts s') = fst ` set (corpus_counts s) \<union> fst ` set cs"
  using assms
proof (induction cs arbitrary: s)
  case Nil
  then show ?case by simp
next
  case (Cons c cs)
  obtain name entry where c: "c = (name, entry)" by (cases c)
  obtain s1 r where l: "load_corpus e bucket name entry s = (s1, r)"
    by (cases "load_corpus e bucket name entry s")
  from Cons.prems c l have r: "r = None" and rest: "load_corpora e bucket cs s1 = (s', None)"
    by (cases r; simp)+
  from load_corpus_ok_keys [OF l [unfolded r]] Cons.IH [OF rest] c
  show ?case by auto
qed

lemma search_not_loaded:
  "\<not> loaded s \<Longrightarrow> search e s query top_k = (Inl RuntimeError_not_loaded, [])"
  by (simp add: search_def)

lemma ex_failed_eq:
  "ex_failed = \<lparr>config = ex_config,
      manifest = Some \<lparr>version = ''v1'',
             corpora = [(''pdf'', ex_entry ''pdf'' 1536), (''sas'', ex_entry ''sas'' 1536)]\<rparr>,
      indices = [(''pdf'', ex_index 1536 [(9 / 10, 0), (0, - 1)])],
      id_maps = [(''pdf'', [(0, ''c1'')])],
      doc_maps = [(''pdf'', [(''c1'', [(''text'', PStr ''hello''), (''metadata'', PDict [])])])],
      loaded = False,
      corpus_counts = [(''pdf'', 1)]\<rparr>"
  by (simp add: ex_failed_def load_from_manifest_def load_corpus_def ex_env_mismatch_def
      retriever_init_def ex_store_def ex_entry_def ex_index_def Let_def)

lemma ex_loaded_eq:
  "ex_loaded = \<lparr>config = ex_config,
      manifest = Some \<lparr>version = ''v1'', corpora = [(''pdf'', ex_entry ''pdf'' 1536)]\<rparr>,
      indices = [(''pdf'', ex_index 1536 [(9 / 10, 0), (0, - 1)])],
      id_maps = [(''pdf'', [(0, ''c1'')])],
      doc_maps = [(''pdf'', [(''c1'', [(''text'', PStr ''hello''), (''metadata'', PDict [])])])],
      loaded = True,
      corpus_counts = [(''pdf'', 1)]\<rparr>"
  by (simp add: ex_loaded_def load_from_manifest_def load_corpus_def ex_env_def
      retriever_init_def ex_store_def ex_entry_def ex_index_def Let_def)









lemma corpus_results_sentinel:
  "corpus_results c im dm ((distance, - 1) # rest) = corpus_results c im dm rest"
  by (simp add: Let_def split: prod.splits)

lemma corpus_results_unmapped:
  "ann_id \<noteq> - 1 \<Longrightarrow> map_of im ann_id = None \<Longrightarrow>
   corpus_results c im dm ((distance, ann_id) # rest) =
     (fst (corpus_results c im dm rest),
      Missing_chunk_id c ann_id # snd (corpus_results c im dm rest))"
  by (simp add: Let_def split: prod.splits)

lemma corpus_results_no_document:
  "ann_id \<noteq> - 1 \<Longrightarrow> map_of im ann_id = Some chunk_id \<Longrightarrow> chunk_id \<noteq> [] \<Longrightarrow>
   map_of dm chunk_id = None \<Longrightarrow>
   corpus_results c im dm ((distance, ann_id) # rest) =
     ([(''corpus'', PStr c), (''chunk_id'', PStr chunk_id), (''score'', PFloat distance),
       (''text'', PStr ''''), (''metadata'', PDict [])] # fst (corpus_results c im dm rest),
      snd (corpus_results c im dm rest))"
  by (simp add: Let_def dict_get_def split: prod.splits)

lemma corpus_results_origin:
  "item \<in> set (fst (corpus_results c im dm found)) \<Longrightarrow>
   \<exists>distance ann_id chunk_id. (distance, ann_id) \<in> set found \<and> ann_id \<noteq> - 1
      \<and> map_of im ann_id = Some chunk_id \<and> chunk_id \<noteq> []
      \<and> item_key item = (PStr c, PStr chunk_id)"
proof (induction found)
  case Nil
  then show ?case by simp
next
  case (Cons h found)
  obtain distance ann_id where h: "h = (distance, ann_id)" by (cases h)
  obtain res w where r: "corpus_results c im dm found = (res, w)"
    by (cases "corpus_results c im dm found")
  show ?case
  proof (cases "item \<in> set res")
    case True
    with Cons.IH r show ?thesis by fastforce
  next
    case False
    with Cons.prems h r have ne: "ann_id \<noteq> - 1"
      by (auto simp: Let_def split: if_splits)
    from False Cons.prems h r ne obtain chunk_id where m: "map_of im ann_id = Some chunk_id"
      by (cases "map_of im ann_id") (auto simp: Let_def)
    from False Cons.prems h r ne m have c: "chunk_id \<noteq> []"
      by (auto simp: Let_def split: if_splits)
    from False Cons.prems h r ne m c have "item_key item = (PStr c, PStr chunk_id)"
      by (auto simp: Let_def item_key_def dict_get_def)
    with h ne m c show ?thesis by auto
  qed
qed

lemma corpus_results_hashable:
  "item \<in> set (fst (corpus_results c im dm found)) \<Longrightarrow> key_hashable (item_key item)"
  using corpus_results_origin [of item c im dm found]
  by (auto simp: key_hashable_def)

lemma corpus_results_all_sentinel:
  "\<forall>h\<in>set found. snd h = - 1 \<Longrightarrow> corpus_results c im dm found = ([], [])"
  by (induction found) (auto simp: Let_def)

lemma search_corpora_returns:
  assumes "\<forall>c\<in>set idxs. corpus_ready s qv top_k c"
  shows "\<exists>ls w. search_corpora s qv top_k idxs = (Inr ls, w)
           \<and> (\<forall>l\<in>set ls. \<forall>i\<in>set l. key_hashable (item_key i))"
  using assms
proof (induction idxs)
  case Nil
  then show ?case by simp
next
  case (Cons c idxs)
  obtain name index where c: "c = (name, index)" by (cases c)
  from Cons.prems c obtain found id_map doc_map where
    f: "index_search index qv top_k = Inr found"
    and i: "map_of (id_maps s) name = Some id_map"
    and d: "map_of (doc_maps s) name = Some doc_map"
    by (auto simp: corpus_ready_def split: sum.splits)
  obtain res w where r: "corpus_results name id_map doc_map found = (res, w)"
    by (cases "corpus_results name id_map doc_map found")
  have h: "\<forall>i\<in>set res. key_hashable (item_key i)"
    using corpus_results_hashable [of _ name id_map doc_map found] r by simp
  from Cons.IH Cons.prems obtain ls w' where
    rest: "search_corpora s qv top_k idxs = (Inr ls, w')"
    and hs: "\<forall>l\<in>set ls. \<forall>i\<in>set l. key_hashable (item_key i)"
    by auto
  have "search_corpora s qv top_k (c # idxs) = (Inr (res # ls), w @ w')"
    by (simp add: c f i d r rest)
  with h hs show ?case by simp
qed

lemma search_returns:
  assumes "loaded s" and "embed_query e query = Inr qv" and "0 \<le> fusion_k (config s)"
    and "\<forall>c\<in>set (indices s). corpus_ready s qv top_k c"
  shows "\<exists>out. fst (search e s query top_k) = Inr out"
proof -
  from search_corpora_returns [OF assms(4)] obtain ls w where
    sc: "search_corpora s qv top_k (indices s) = (Inr ls, w)"
    and h: "\<forall>l\<in>set ls. \<forall>i\<in>set l. key_hashable (item_key i)"
    by blast
  from fusion_returns [OF assms(3) h] obtain out where
    "reciprocal_rank_fusion ls (fusion_k (config s)) = Inr out" by blast
  with assms(1,2) sc show ?thesis by (simp add: search_def)
qed

text \<open>
  Claim C5, amended. When loading reaches a corpus whose deserialized index has a
  dimension other than the one the manifest declares, \<^verbatim>\<open>load_from_manifest\<close> raises the
  dimension-mismatch error and leaves the \<^verbatim>\<open>loaded\<close> flag as it was: a facade that was
  not loaded stays not loaded, and every search on it fails with the not-loaded error.
  Nothing is rolled back: the manifest is set, and the corpora loaded before the failing
  one stay in \<^verbatim>\<open>indices\<close>, \<^verbatim>\<open>id_maps\<close>, \<^verbatim>\<open>doc_maps\<close> and \<^verbatim>\<open>corpus_counts\<close>; the
  failing corpus and the ones after it add nothing.
\<close>

theorem load_dimension_mismatch:
  assumes "get_manifest e bucket manifest_key = Inr m"
    and "corpora m = before @ (corpus_name, entry) # rest"
    and "load_corpora e bucket before (s\<lparr>manifest := Some m\<rparr>) = (s1, None)"
    and "download_error (store e bucket corpus_name) = None"
    and "read_index (store e bucket corpus_name) = Inr index"
    and "index_d index \<noteq> dimension entry"
  shows "load_from_manifest e s bucket manifest_key
           = (s1, Some (ValueError_dimension_mismatch (index_d index) (dimension entry)))
       \<and> loaded s1 = loaded s
       \<and> (\<not> loaded s \<longrightarrow>
            (\<forall>e' query top_k. search e' s1 query top_k = (Inl RuntimeError_not_loaded, [])))
       \<and> manifest s1 = Some m
       \<and> fst ` set (indices s1) = fst ` set (indices s) \<union> fst ` set before
       \<and> fst ` set (id_maps s1) = fst ` set (id_maps s) \<union> fst ` set before
       \<and> fst ` set (doc_maps s1) = fst ` set (doc_maps s) \<union> fst ` set before
       \<and> fst ` set (corpus_counts s1) = fst ` set (corpus_counts s) \<union> fst ` set before"
proof -
  have fail: "load_corpora e bucket (corpora m) (s\<lparr>manifest := Some m\<rparr>)
      = (s1, Some (ValueError_dimension_mismatch (index_d index) (dimension entry)))"
    unfolding assms(2) load_corpora_append assms(3)
    by (simp add: load_corpus_mismatch [OF assms(4,5,6)])
  have res: "load_from_manifest e s bucket manifest_key
           = (s1, Some (ValueError_dimension_mismatch (index_d index) (dimension entry)))"
    by (simp add: load_from_manifest_def assms(1) fail)
  have l: "loaded s1 = loaded s"
    using load_corpora_loaded [of e bucket before "s\<lparr>manifest := Some m\<rparr>"] assms(3) by simp
  have m: "manifest s1 = Some m"
    using load_corpora_manifest [of e bucket before "s\<lparr>manifest := Some m\<rparr>"] assms(3) by simp
  have srch: "search e' s1 query top_k = (Inl RuntimeError_not_loaded, [])"
    if "\<not> loaded s" for e' query top_k
    using that l by (simp add: search_not_loaded)
  from res l m srch load_corpora_ok_keys [OF assms(3)] show ?thesis
    by simp
qed

theorem load_dimension_mismatch_witness:
  "load_from_manifest ex_env_mismatch (retriever_init ex_config) ''bucket'' ''rag/manifest.json''
     = (ex_failed, Some (ValueError_dimension_mismatch 768 1536))
   \<and> \<not> loaded (retriever_init ex_config)
   \<and> \<not> loaded ex_failed
   \<and> search ex_env ex_failed ''aspirin dose'' 5 = (Inl RuntimeError_not_loaded, [])"
proof -
  let ?m = "\<lparr>version = ''v1'',
             corpora = [(''pdf'', ex_entry ''pdf'' 1536), (''sas'', ex_entry ''sas'' 1536)]\<rparr>"
  let ?s = "retriever_init ex_config"
  have h1: "get_manifest ex_env_mismatch ''bucket'' ''rag/manifest.json'' = Inr ?m"
    by (simp add: ex_env_mismatch_def)
  have h2: "corpora ?m = [(''pdf'', ex_entry ''pdf'' 1536)] @ (''sas'', ex_entry ''sas'' 1536) # []"
    by simp
  have h3: "load_corpora ex_env_mismatch ''bucket'' [(''pdf'', ex_entry ''pdf'' 1536)]
              (?s\<lparr>manifest := Some ?m\<rparr>) = (ex_failed, None)"
    by (simp add: ex_failed_eq load_corpus_def ex_env_mismatch_def
      retriever_init_def ex_store_def ex_entry_def ex_index_def Let_def)
  have h4: "download_error (store ex_env_mismatch ''bucket'' ''sas'') = None"
    by (simp add: ex_env_mismatch_def ex_store_def)
  have h5: "read_index (store ex_env_mismatch ''bucket'' ''sas'')
              = Inr (ex_index 768 [(9 / 10, 0), (0, - 1)])"
    by (simp add: ex_env_mismatch_def ex_store_def)
  have h6: "index_d (ex_index 768 [(9 / 10, 0), (0, - 1)]) \<noteq> dimension (ex_entry ''sas'' 1536)"
    by (simp add: ex_index_def ex_entry_def)
  have n: "\<not> loaded ?s"
    by (simp add: retriever_init_def)
  from load_dimension_mismatch [OF h1 h2 h3 h4 h5 h6] n
  have "load_from_manifest ex_env_mismatch ?s ''bucket'' ''rag/manifest.json''
     = (ex_failed, Some (ValueError_dimension_mismatch 768 1536))"
    and "\<not> loaded ex_failed"
    and "search ex_env ex_failed ''aspirin dose'' 5 = (Inl RuntimeError_not_loaded, [])"
    by (simp_all add: ex_index_def ex_entry_def)
  with n show ?thesis by simp
qed

text \<open>
  The claim as stated, with no partial initialization observable, fails: after the
  failed load of two corpora the first one is in all four dictionaries of a facade that
  started empty, and a later successful load of a manifest that lists the second corpus
  only leaves it there, so that \<^verbatim>\<open>search\<close> returns a chunk of the first corpus.
\<close>

theorem load_dimension_mismatch_counterexample:
  "snd (load_from_manifest ex_env_mismatch (retriever_init ex_config) ''bucket'' ''rag/manifest.json'')
     = Some (ValueError_dimension_mismatch 768 1536)
   \<and> indices (retriever_init ex_config) = []
   \<and> id_maps (retriever_init ex_config) = []
   \<and> doc_maps (retriever_init ex_config) = []
   \<and> corpus_counts (retriever_init ex_config) = []
   \<and> map fst (indices ex_failed) = [''pdf'']
   \<and> id_maps ex_failed = [(''pdf'', [(0, ''c1'')])]
   \<and> doc_maps ex_failed = [(''pdf'', [(''c1'', [(''text'', PStr ''hello''), (''metadata'', PDict [])])])]
   \<and> corpus_counts ex_failed = [(''pdf'', 1)]
   \<and> snd (load_from_manifest ex_env_sas ex_failed ''bucket'' ''rag/manifest.json'') = None
   \<and> search ex_env_sas ex_reloaded ''aspirin dose'' 5
       = (Inr [[(''corpus'', PStr ''pdf''), (''chunk_id'', PStr ''c1''), (''score'', PFloat (1 / 9)),
                (''text'', PStr ''hello''), (''metadata'', PDict [])],
               [(''corpus'', PStr ''sas''), (''chunk_id'', PStr ''s1''), (''score'', PFloat (1 / 9)),
                (''text'', PStr ''hello''), (''metadata'', PDict [])]], [])"
proof -
  have a: "snd (load_from_manifest ex_env_mismatch (retriever_init ex_config) ''bucket'' ''rag/manifest.json'')
     = Some (ValueError_dimension_mismatch 768 1536)"
    by (simp add: load_from_manifest_def load_corpus_def ex_env_mismatch_def
      retriever_init_def ex_store_def ex_entry_def ex_index_def Let_def)
  have b: "indices (retriever_init ex_config) = []" "id_maps (retriever_init ex_config) = []"
    "doc_maps (retriever_init ex_config) = []" "corpus_counts (retriever_init ex_config) = []"
    by (simp_all add: retriever_init_def)
  have c: "map fst (indices ex_failed) = [''pdf'']"
    "id_maps ex_failed = [(''pdf'', [(0, ''c1'')])]"
    "doc_maps ex_failed = [(''pdf'', [(''c1'', [(''text'', PStr ''hello''), (''metadata'', PDict [])])])]"
    "corpus_counts ex_failed = [(''pdf'', 1)]"
    by (simp_all add: ex_failed_eq)
  have d: "load_from_manifest ex_env_sas ex_failed ''bucket'' ''rag/manifest.json''
     = (\<lparr>config = ex_config,
         manifest = Some \<lparr>version = ''v2'', corpora = [(''sas'', ex_entry ''sas'' 768)]\<rparr>,
         indices = [(''pdf'', ex_index 1536 [(9 / 10, 0), (0, - 1)]),
                    (''sas'', ex_index 768 [(9 / 10, 0), (0, - 1)])],
         id_maps = [(''pdf'', [(0, ''c1'')]), (''sas'', [(0, ''s1'')])],
         doc_maps = [(''pdf'', [(''c1'', [(''text'', PStr ''hello''), (''metadata'', PDict [])])]),
                     (''sas'', [(''s1'', [(''text'', PStr ''hello''), (''metadata'', PDict [])])])],
         loaded = True,
         corpus_counts = [(''pdf'', 1), (''sas'', 1)]\<rparr>, None)"
    by (simp add: ex_failed_eq load_from_manifest_def load_corpus_def ex_env_sas_def
      ex_store_def ex_entry_def ex_index_def Let_def)
  have e: "search ex_env_sas ex_reloaded ''aspirin dose'' 5
       = (Inr [[(''corpus'', PStr ''pdf''), (''chunk_id'', PStr ''c1''), (''score'', PFloat (1 / 9)),
                (''text'', PStr ''hello''), (''metadata'', PDict [])],
               [(''corpus'', PStr ''sas''), (''chunk_id'', PStr ''s1''), (''score'', PFloat (1 / 9)),
                (''text'', PStr ''hello''), (''metadata'', PDict [])]], [])"
    unfolding ex_reloaded_def d
    by (simp add: search_def ex_env_sas_def ex_index_def ex_config_def dict_get_def
     reciprocal_rank_fusion_def item_key_def key_hashable_def score_get_def sort_reverse_def
     score_key_def)
  from a b c d e show ?thesis by simp
qed

text \<open>
  Claim C7. In the results of one corpus, a hit with the sentinel id \<open>-1\<close> is skipped;
  a hit whose id has no entry in the corpus's id map is dropped alone, with a warning
  logged, and the other hits are processed as without it; a hit whose chunk id has no
  entry in the document map gives a result with empty text and empty metadata. Every
  result comes from a hit that is not the sentinel and is mapped. None of this raises:
  a loaded facade whose corpora can all be searched returns a fused list whatever the id
  and document maps hold (for a fusion constant that is not negative).
\<close>

theorem search_degrades_gracefully:
  "corpus_results c im dm ((distance, - 1) # rest) = corpus_results c im dm rest
   \<and> (ann_id \<noteq> - 1 \<and> map_of im ann_id = None \<longrightarrow>
        corpus_results c im dm ((distance, ann_id) # rest) =
          (fst (corpus_results c im dm rest),
           Missing_chunk_id c ann_id # snd (corpus_results c im dm rest)))
   \<and> (ann_id \<noteq> - 1 \<and> map_of im ann_id = Some chunk_id \<and> chunk_id \<noteq> []
        \<and> map_of dm chunk_id = None \<longrightarrow>
        corpus_results c im dm ((distance, ann_id) # rest) =
          ([(''corpus'', PStr c), (''chunk_id'', PStr chunk_id), (''score'', PFloat distance),
            (''text'', PStr ''''), (''metadata'', PDict [])] # fst (corpus_results c im dm rest),
           snd (corpus_results c im dm rest)))
   \<and> (\<forall>item\<in>set (fst (corpus_results c im dm found)).
        \<exists>d a cid. (d, a) \<in> set found \<and> a \<noteq> - 1 \<and> map_of im a = Some cid \<and> cid \<noteq> []
          \<and> item_key item = (PStr c, PStr cid))
   \<and> (loaded s \<and> embed_query e query = Inr qv \<and> 0 \<le> fusion_k (config s)
        \<and> (\<forall>x\<in>set (indices s). corpus_ready s qv top_k x) \<longrightarrow>
        (\<exists>out. fst (search e s query top_k) = Inr out))"
  using corpus_results_sentinel [of c im dm distance rest]
    corpus_results_unmapped [of ann_id im c dm distance rest]
    corpus_results_no_document [of ann_id im chunk_id dm c distance rest]
    corpus_results_origin [of _ c im dm found]
    search_returns [of s e query qv top_k]
  by blast

theorem search_degrades_gracefully_witness:
  "(7::int) \<noteq> - 1 \<and> map_of [(0::int, ''c1'')] 7 = None
   \<and> map_of [(0::int, ''c1'')] 0 = Some ''c1'' \<and> map_of ([]::(string, item) dict) ''c1'' = None
   \<and> corpus_results ''pdf'' [(0, ''c1'')] [] [(9 / 10, 0), (8 / 10, 7), (0, - 1)]
       = ([[(''corpus'', PStr ''pdf''), (''chunk_id'', PStr ''c1''), (''score'', PFloat (9 / 10)),
            (''text'', PStr ''''), (''metadata'', PDict [])]],
          [Missing_chunk_id ''pdf'' 7])
   \<and> loaded ex_unmapped \<and> embed_query ex_env ''aspirin dose'' = Inr [1]
   \<and> (0::int) \<le> fusion_k (config ex_unmapped)
   \<and> corpus_ready ex_unmapped [1] 5 (''pdf'', ex_index 1536 [(9 / 10, 0), (8 / 10, 7), (0, - 1)])
   \<and> search ex_env ex_unmapped ''aspirin dose'' 5
       = (Inr [[(''corpus'', PStr ''pdf''), (''chunk_id'', PStr ''c1''), (''score'', PFloat (1 / 9)),
                (''text'', PStr ''''), (''metadata'', PDict [])]],
          [Missing_chunk_id ''pdf'' 7])"
proof -
  have g: "loaded ex_unmapped" "embed_query ex_env ''aspirin dose'' = Inr [1]"
    "(0::int) \<le> fusion_k (config ex_unmapped)"
    "corpus_ready ex_unmapped [1] 5 (''pdf'', ex_index 1536 [(9 / 10, 0), (8 / 10, 7), (0, - 1)])"
    by (simp_all add: ex_unmapped_def ex_loaded_eq ex_env_def ex_config_def corpus_ready_def
        ex_index_def)
  have "\<forall>x\<in>set (indices ex_unmapped). corpus_ready ex_unmapped [1] 5 x"
    using g(4) by (simp add: ex_unmapped_def)
  with g search_degrades_gracefully [of _ _ _ _ _ _ _ _ ex_unmapped ex_env "''aspirin dose''" "[1]" 5]
  obtain out where "fst (search ex_env ex_unmapped ''aspirin dose'' 5) = Inr out"
    by blast
  have t: "search ex_env ex_unmapped ''aspirin dose'' 5
       = (Inr [[(''corpus'', PStr ''pdf''), (''chunk_id'', PStr ''c1''), (''score'', PFloat (1 / 9)),
                (''text'', PStr ''''), (''metadata'', PDict [])]],
          [Missing_chunk_id ''pdf'' 7])"
    by (simp add: ex_unmapped_def ex_loaded_eq search_def ex_env_def ex_index_def ex_config_def
        dict_get_def reciprocal_rank_fusion_def item_key_def key_hashable_def score_get_def
        sort_reverse_def)
  let ?im = "[(0::int, ''c1'')]"
  let ?dm = "[]::(string, item) dict"
  have a: "(7::int) \<noteq> - 1" "map_of ?im 7 = None" "(0::int) \<noteq> - 1" "map_of ?im 0 = Some ''c1''"
    "''c1'' \<noteq> []" "map_of ?dm ''c1'' = None"
    by simp_all
  have s: "corpus_results ''pdf'' ?im ?dm [(0, - 1)] = corpus_results ''pdf'' ?im ?dm []"
    using search_degrades_gracefully [of "''pdf''" ?im ?dm 0 "[]"] by blast
  have u: "corpus_results ''pdf'' ?im ?dm ((8 / 10, 7) # [(0, - 1)]) =
          (fst (corpus_results ''pdf'' ?im ?dm [(0, - 1)]),
           Missing_chunk_id ''pdf'' 7 # snd (corpus_results ''pdf'' ?im ?dm [(0, - 1)]))"
    using search_degrades_gracefully [of "''pdf''" ?im ?dm "8 / 10" "[(0, - 1)]" 7] a by blast
  have n: "corpus_results ''pdf'' ?im ?dm ((9 / 10, 0) # [(8 / 10, 7), (0, - 1)]) =
          ([(''corpus'', PStr ''pdf''), (''chunk_id'', PStr ''c1''), (''score'', PFloat (9 / 10)),
            (''text'', PStr ''''), (''metadata'', PDict [])]
             # fst (corpus_results ''pdf'' ?im ?dm [(8 / 10, 7), (0, - 1)]),
           snd (corpus_results ''pdf'' ?im ?dm [(8 / 10, 7), (0, - 1)]))"
    using search_degrades_gracefully [of "''pdf''" ?im ?dm "9 / 10" "[(8 / 10, 7), (0, - 1)]" 0 "''c1''"] a
    by blast
  have "corpus_results ''pdf'' ?im ?dm [(9 / 10, 0), (8 / 10, 7), (0, - 1)]
       = ([[(''corpus'', PStr ''pdf''), (''chunk_id'', PStr ''c1''), (''score'', PFloat (9 / 10)),
            (''text'', PStr ''''), (''metadata'', PDict [])]],
          [Missing_chunk_id ''pdf'' 7])"
    unfolding n u s by simp
  with a g t show ?thesis by simp
qed








end
